theory Spec2Isabelle
  imports Complex_Main "HOL-Library.Word"
begin

unbundle bit_operations_syntax

section \<open>The mesh module of edg-acoustics\<close>

text \<open>
  The development embeds \<^verbatim>\<open>src/edg_acoustics/mesh.py\<close>: the static method
  \<^verbatim>\<open>Mesh.__compute_element_connectivity\<close>, the constructor path
  \<^verbatim>\<open>Mesh.__init_from_file\<close> and the operator \<^verbatim>\<open>Mesh.__eq__\<close>.
  Arrays are lists (a 2-D array is a list of rows), Python integers are \<open>int\<close>, indices
  and counts are \<open>nat\<close>, a raised exception is the \<open>Inl\<close> branch of a sum.
\<close>

text \<open>
  The exceptions that the embedded code can raise. A \<^verbatim>\<open>KeyError\<close> carries the key that
  the dictionary does not have.
\<close>

datatype error = ValueError string | KeyError string | IndexError

text \<open>The two \<^verbatim>\<open>ValueError\<close>s of the module, told apart by their messages.\<close>

definition reshape_error :: error where
  "reshape_error = ValueError ''cannot reshape array of size 0 into shape (0)''"

definition label_error :: error where
  "label_error = ValueError
     ''[edg_acoustics.Mesh] All BC labels must be present in the mesh and all labels in the mesh must be present in BC_labels.''"

subsection \<open>The builtin \<^verbatim>\<open>hash\<close> on tuples of integers\<close>

text \<open>
  Line 218 of the source computes the match key of a face as \<^verbatim>\<open>hash(tuple(x))\<close>, where
  \<^verbatim>\<open>x\<close> is a row of three 64-bit integers. The builtin is CPython's (version 3.8 and
  later, 64-bit build): an integer hashes to itself reduced modulo the Mersenne prime
  \<open>2^61 - 1\<close> (with \<open>-1\<close> replaced by \<open>-2\<close>), and a tuple is hashed by the xxHash-style
  loop of \<^verbatim>\<open>Objects/tupleobject.c\<close> over unsigned 64-bit words, the result read as a
  signed 64-bit integer.
\<close>

definition XXPRIME_1 :: "64 word" where
  "XXPRIME_1 = 11400714785074694791"

definition XXPRIME_2 :: "64 word" where
  "XXPRIME_2 = 14029467366897019727"

definition XXPRIME_5 :: "64 word" where
  "XXPRIME_5 = 2870177450012600261"

definition XXROTATE :: "64 word \<Rightarrow> 64 word" where
  "XXROTATE x = (push_bit 31 x) OR (drop_bit 33 x)"

definition int_hash :: "int \<Rightarrow> int" where
  "int_hash v = (let r = sgn v * (\<bar>v\<bar> mod (2 ^ 61 - 1)) in if r = - 1 then - 2 else r)"

fun tuplehash_loop :: "64 word \<Rightarrow> int list \<Rightarrow> 64 word" where
  "tuplehash_loop acc [] = acc"
| "tuplehash_loop acc (v # vs) =
     tuplehash_loop (XXROTATE (acc + word_of_int (int_hash v) * XXPRIME_2) * XXPRIME_1) vs"

definition tuple_hash :: "int list \<Rightarrow> int" where
  "tuple_hash t =
     (let acc = tuplehash_loop XXPRIME_5 t
                + (word_of_nat (length t) XOR (XXPRIME_5 XOR 3527539))
      in if acc = - 1 then 1546275796 else sint acc)"

subsection \<open>numpy primitives used by the connectivity computation\<close>

text \<open>
  \<^verbatim>\<open>numpy.argsort\<close> is called with its default kind, which is not a stable sort: among
  equal keys the order of the returned indices is not specified. It is therefore a
  parameter of the model, and \<open>is_argsort\<close> states what every implementation
  guarantees: the result is a permutation of the positions that puts the keys in
  ascending order. \<open>stable_argsort\<close> is one such implementation.
\<close>

definition is_argsort :: "int list \<Rightarrow> nat list \<Rightarrow> bool" where
  "is_argsort ks p \<longleftrightarrow>
     length p = length ks \<and> distinct p \<and> list_all (\<lambda>i. i < length ks) p
     \<and> sorted (map (\<lambda>i. ks ! i) p)"

definition stable_argsort :: "int list \<Rightarrow> nat list" where
  "stable_argsort ks = sort_key (\<lambda>i. ks ! i) [0..<length ks]"

text \<open>\<^verbatim>\<open>tets[:, cols]\<close>: a fresh array holding the chosen columns of every row.\<close>

definition take_cols :: "int list list \<Rightarrow> nat list \<Rightarrow> int list list" where
  "take_cols tets cols = map (\<lambda>row. map (\<lambda>c. row ! c) cols) tets"

text \<open>\<^verbatim>\<open>numpy.vstack\<close>: the rows of the blocks, one block after the other.\<close>

definition vstack :: "'a list list list \<Rightarrow> 'a list list" where
  "vstack blocks = concat blocks"

text \<open>\<^verbatim>\<open>a.sort(axis=-1)\<close>: every row sorted ascending.\<close>

definition sort_rows :: "int list list \<Rightarrow> int list list" where
  "sort_rows a = map sort a"

text \<open>\<^verbatim>\<open>numpy.unravel_index(s, (rows, cols))\<close> for a flat index \<open>s\<close> in range.\<close>

definition unravel_index :: "nat \<Rightarrow> nat \<Rightarrow> nat \<times> nat" where
  "unravel_index cols s = (s div cols, s mod cols)"

text \<open>
  Reading and writing a 2-D array at a list of flat indices. The right-hand side of the
  source's assignment is read in full before the first write; the writes happen in the
  order of the index list, so that for a repeated index the last value stays.
\<close>

definition read_at :: "nat \<Rightarrow> 'a list list \<Rightarrow> nat \<Rightarrow> 'a" where
  "read_at cols A s = (case unravel_index cols s of (f, e) \<Rightarrow> A ! f ! e)"

definition write_at :: "nat \<Rightarrow> nat \<times> 'a \<Rightarrow> 'a list list \<Rightarrow> 'a list list" where
  "write_at cols sv A =
     (case unravel_index cols (fst sv) of (f, e) \<Rightarrow> A[f := (A ! f)[e := snd sv]])"

definition assign_at ::
  "nat \<Rightarrow> 'a list list \<Rightarrow> nat list \<Rightarrow> 'a list \<Rightarrow> 'a list list" where
  "assign_at cols A idx vals = fold (write_at cols) (zip idx vals) A"

subsection \<open>\<^verbatim>\<open>Mesh.__compute_element_connectivity\<close>\<close>

text \<open>The four local faces, as columns of the tetrahedron array (lines 185 to 189).\<close>

definition face_cols :: "nat list list" where
  "face_cols = [[0, 1, 2], [0, 1, 3], [1, 2, 3], [0, 2, 3]]"

text \<open>Lines 189 and 193: the face triples, local face by local face, each sorted.\<close>

definition face_vertices :: "int list list \<Rightarrow> int list list" where
  "face_vertices tets = sort_rows (vstack (map (take_cols tets) face_cols))"

text \<open>Line 218: the match key of every face slot.\<close>

definition face_ids :: "int list list \<Rightarrow> int list" where
  "face_ids tets = map tuple_hash (face_vertices tets)"

text \<open>Lines 203 and 210: the initial tables, of shape \<open>(4, N_tets)\<close>.\<close>

definition EToE_init :: "nat \<Rightarrow> nat list list" where
  "EToE_init N_tets = replicate 4 [0..<N_tets]"

definition EToF_init :: "nat \<Rightarrow> nat list list" where
  "EToF_init N_tets = map (\<lambda>f. replicate N_tets f) [0..<4]"

text \<open>Line 233: the positions whose key equals the key of the next position.\<close>

definition interior_face_id_idx :: "int list \<Rightarrow> nat list" where
  "interior_face_id_idx ids = filter (\<lambda>i. ids ! i = ids ! (i + 1)) [0..<length ids - 1]"

text \<open>
  The whole method. With no tetrahedron the reshape of line 210,
  \<^verbatim>\<open>reshape([-1, 0])\<close> of an empty array, raises \<^verbatim>\<open>ValueError\<close>.
\<close>

definition compute_element_connectivity ::
  "(int list \<Rightarrow> nat list) \<Rightarrow> int list list \<Rightarrow> error + (nat list list \<times> nat list list)" where
  "compute_element_connectivity argsort tets =
     (let N_faces_per_tet = 4;
          N_tets = length tets;
          face_vertices_idx = [0..<N_tets * N_faces_per_tet];
          EToE = EToE_init N_tets
      in if N_tets = 0 then Inl reshape_error
         else
           let EToF = EToF_init N_tets;
               ids = face_ids tets;
               face_ids_sort_indices = argsort ids;
               ids = map (\<lambda>i. ids ! i) face_ids_sort_indices;
               face_vertices_idx = map (\<lambda>i. face_vertices_idx ! i) face_ids_sort_indices;
               interior = interior_face_id_idx ids;
               interior_L = map (\<lambda>i. face_vertices_idx ! i) interior;
               interior_R = map (\<lambda>i. face_vertices_idx ! (i + 1)) interior;
               EToE = assign_at N_tets EToE (interior_L @ interior_R)
                        (map (read_at N_tets EToE) (interior_R @ interior_L));
               EToF = assign_at N_tets EToF (interior_L @ interior_R)
                        (map (read_at N_tets EToF) (interior_R @ interior_L))
           in Inr (EToE, EToF))"


subsection \<open>Notions used in the statements\<close>

text \<open>A 2-D array with \<open>r\<close> rows of \<open>c\<close> entries each.\<close>

definition shape :: "nat \<Rightarrow> nat \<Rightarrow> 'a list list \<Rightarrow> bool" where
  "shape r c A \<longleftrightarrow> length A = r \<and> list_all (\<lambda>row. length row = c) A"

text \<open>
  The index pairs \<open>(target, source)\<close> of the two assignments of lines 256 to 263, in the
  order in which they are written: the left slots take the values of the right slots,
  then the right slots those of the left slots.
\<close>

definition slot_pairs :: "int list \<Rightarrow> nat list \<Rightarrow> (nat \<times> nat) list" where
  "slot_pairs ks p =
     (let interior = interior_face_id_idx (map (\<lambda>i. ks ! i) p);
          interior_L = map (\<lambda>i. p ! i) interior;
          interior_R = map (\<lambda>i. p ! (i + 1)) interior
      in zip (interior_L @ interior_R) (interior_R @ interior_L))"

text \<open>No value occurs three times in the list.\<close>

definition at_most_twice :: "'a list \<Rightarrow> bool" where
  "at_most_twice xs \<longleftrightarrow> list_all (\<lambda>x. count_list xs x \<le> 2) xs"

definition last_source :: "int list \<Rightarrow> nat list \<Rightarrow> nat \<Rightarrow> nat option" where
  "last_source ks p s = map_of (rev (slot_pairs ks p)) s"

text \<open>Replacing every vertex index \<open>v\<close> of the tetrahedron array by \<open>p v\<close>.\<close>

definition relabel :: "(int \<Rightarrow> int) \<Rightarrow> int list list \<Rightarrow> int list list" where
  "relabel p tets = map (map p) tets"

text \<open>The permutation of the vertex indices that exchanges \<open>a\<close> and \<open>b\<close>.\<close>

definition transpose_vertices :: "int \<Rightarrow> int \<Rightarrow> int \<Rightarrow> int" where
  "transpose_vertices a b v = (if v = a then b else if v = b then a else v)"

text \<open>No two local faces of one element have the same match key.\<close>

definition distinct_face_keys :: "int list list \<Rightarrow> bool" where
  "distinct_face_keys tets \<longleftrightarrow>
     list_all (\<lambda>e. distinct (map (\<lambda>f. face_ids tets ! (f * length tets + e)) [0..<4]))
       [0..<length tets]"

text \<open>The key of slot \<open>s\<close> is the key of no other slot.\<close>

definition key_occurs_once :: "int list \<Rightarrow> nat \<Rightarrow> bool" where
  "key_occurs_once ks s \<longleftrightarrow> count_list ks (ks ! s) = 1"

subsection \<open>The data read from the mesh file and the \<^verbatim>\<open>Mesh\<close> object\<close>

text \<open>
  A vertex coordinate is a 64-bit float. The model keeps only what \<^verbatim>\<open>__eq__\<close> uses,
  the comparison \<^verbatim>\<open>==\<close>, under which a NaN differs from every value, itself included.
\<close>

datatype coord = Num real | NaN

fun float_eq :: "coord \<Rightarrow> coord \<Rightarrow> bool" where
  "float_eq (Num a) (Num b) = (a = b)"
| "float_eq _ _ = False"

text \<open>
  What \<^verbatim>\<open>meshio.read\<close> delivers, as far as the constructor reads it: the points and two
  dictionaries. \<^verbatim>\<open>cell_data_dict\<close> maps the name of a cell data field to a dictionary
  from the cell type to the values of the field, one for every cell of that type;
  \<^verbatim>\<open>cell_data_dict['gmsh:physical']['triangle']\<close> holds the physical label code of every
  boundary triangle. \<^verbatim>\<open>cells_dict\<close> maps the cell type to the array of the vertex
  indices of the cells of that type. A dictionary is an association list with distinct
  keys.
\<close>

record mesh_data =
  points :: "coord list list"
  cell_data_dict :: "(string \<times> (string \<times> int list) list) list"
  cells_dict :: "(string \<times> int list list) list"

text \<open>\<^verbatim>\<open>d[key]\<close>: the value stored under the key, \<^verbatim>\<open>KeyError\<close> if there is none.\<close>

definition getitem :: "(string \<times> 'v) list \<Rightarrow> string \<Rightarrow> error + 'v" where
  "getitem d key = (case map_of d key of None \<Rightarrow> Inl (KeyError key) | Some v \<Rightarrow> Inr v)"

text \<open>
  The attributes of a \<^verbatim>\<open>Mesh\<close>. A Python dictionary is an association list in insertion
  order; its keys are distinct.
\<close>

record Mesh =
  N_vertices :: nat
  vertices :: "coord list list"
  N_BC_triangles :: "(string \<times> nat) list"
  BC_triangles :: "(string \<times> int list list) list"
  N_tets :: nat
  tets :: "int list list"
  EToE :: "nat list list"
  EToF :: "nat list list"

subsection \<open>\<^verbatim>\<open>Mesh.__init_from_file\<close>\<close>

text \<open>Line 117: the mask of the triangles that carry the code.\<close>

definition triangles_have_label :: "int list \<Rightarrow> int \<Rightarrow> bool list" where
  "triangles_have_label codes code = map (\<lambda>c. c = code) codes"

text \<open>
  Line 119: boolean-mask indexing, the rows whose mask entry is true. A mask whose
  length is not the number of rows raises \<^verbatim>\<open>IndexError\<close>.
\<close>

definition mask_rows :: "'a list \<Rightarrow> bool list \<Rightarrow> error + 'a list" where
  "mask_rows rows flags =
     (if length flags \<noteq> length rows then Inl IndexError
      else Inr (map fst (filter snd (zip rows flags))))"

text \<open>
  Lines 116 to 119, the loop over the labels of \<^verbatim>\<open>BC_labels\<close> in their order. Every
  round looks the codes of the triangles and the triangles up again, and adds one entry
  to \<^verbatim>\<open>self.N_BC_triangles\<close> and one to \<^verbatim>\<open>self.BC_triangles\<close>; the first exception ends
  the loop.
\<close>

fun BC_triangles_loop ::
  "mesh_data \<Rightarrow> (string \<times> int) list
     \<Rightarrow> error + ((string \<times> nat) list \<times> (string \<times> int list list) list)" where
  "BC_triangles_loop data [] = Inr ([], [])"
| "BC_triangles_loop data ((BC_label, code) # rest) =
     (case getitem (cell_data_dict data) ''gmsh:physical'' of
        Inl err \<Rightarrow> Inl err
      | Inr physical \<Rightarrow>
     (case getitem physical ''triangle'' of
        Inl err \<Rightarrow> Inl err
      | Inr codes \<Rightarrow>
     (let flags = triangles_have_label codes code;
          n = length (filter id flags)
      in case getitem (cells_dict data) ''triangle'' of
           Inl err \<Rightarrow> Inl err
         | Inr triangles \<Rightarrow>
        (case mask_rows triangles flags of
           Inl err \<Rightarrow> Inl err
         | Inr rows \<Rightarrow>
        (case BC_triangles_loop data rest of
           Inl err \<Rightarrow> Inl err
         | Inr (n_BC_triangles, bc_triangles) \<Rightarrow>
             Inr ((BC_label, n) # n_BC_triangles, (BC_label, rows) # bc_triangles))))))"

text \<open>
  Lines 97 to 126, in the order of the source: the lookups of line 106, which raise
  \<^verbatim>\<open>KeyError\<close> when the file has no field \<^verbatim>\<open>gmsh:physical\<close> or no triangle; the check of
  lines 107 to 111; the loop; the lookup of the tetrahedra in lines 122 and 123; the
  connectivity. \<^verbatim>\<open>sorted(numpy.unique(codes))\<close> is the ascending list of the distinct
  codes, \<^verbatim>\<open>sorted(BC_labels.values())\<close> the ascending list of the values with their
  repetitions; the two lists are compared with \<^verbatim>\<open>==\<close>.
\<close>

definition init_from_file ::
  "(int list \<Rightarrow> nat list) \<Rightarrow> mesh_data \<Rightarrow> (string \<times> int) list \<Rightarrow> error + Mesh" where
  "init_from_file argsort data BC_labels =
     (case getitem (cell_data_dict data) ''gmsh:physical'' of
        Inl err \<Rightarrow> Inl err
      | Inr physical \<Rightarrow>
     (case getitem physical ''triangle'' of
        Inl err \<Rightarrow> Inl err
      | Inr codes \<Rightarrow>
     (let BC_labels_in_mesh = sort (remdups codes);
          BC_labels_in_input = sort (map snd BC_labels)
      in if \<not> BC_labels_in_input = BC_labels_in_mesh then Inl label_error
         else
          (case BC_triangles_loop data BC_labels of
             Inl err \<Rightarrow> Inl err
           | Inr (n_BC_triangles, bc_triangles) \<Rightarrow>
          (case getitem (cells_dict data) ''tetra'' of
             Inl err \<Rightarrow> Inl err
           | Inr tetra \<Rightarrow>
          (case compute_element_connectivity argsort tetra of
             Inl err \<Rightarrow> Inl err
           | Inr (etoe, etof) \<Rightarrow>
               Inr \<lparr> N_vertices = length (points data), vertices = points data,
                    N_BC_triangles = n_BC_triangles, BC_triangles = bc_triangles,
                    N_tets = length tetra, tets = tetra,
                    EToE = etoe, EToF = etof \<rparr>))))))"

subsection \<open>\<^verbatim>\<open>Mesh.__eq__\<close>\<close>

text \<open>The right operand of \<^verbatim>\<open>==\<close>: a \<^verbatim>\<open>Mesh\<close> instance or any other value.\<close>

datatype operand = MeshObj Mesh | OtherObj

text \<open>\<^verbatim>\<open>numpy.array_equal\<close> on 2-D arrays: the same shape and equal entries.\<close>

definition array_equal :: "('a \<Rightarrow> 'a \<Rightarrow> bool) \<Rightarrow> 'a list list \<Rightarrow> 'a list list \<Rightarrow> bool" where
  "array_equal eq a b \<longleftrightarrow> list_all2 (list_all2 eq) a b"

text \<open>
  \<^verbatim>\<open>==\<close> on dictionaries: the same number of keys, and every key of the left one is a
  key of the right one with an equal value.
\<close>

definition dict_eq :: "(string \<times> nat) list \<Rightarrow> (string \<times> nat) list \<Rightarrow> bool" where
  "dict_eq d1 d2 \<longleftrightarrow> length d1 = length d2 \<and> list_all (\<lambda>(k, v). map_of d2 k = Some v) d1"

text \<open>
  Line 137: \<^verbatim>\<open>all(...)\<close> over the items of \<^verbatim>\<open>self.BC_triangles\<close>. The generator stops at
  the first unequal array; \<^verbatim>\<open>other.BC_triangles[key]\<close> raises \<^verbatim>\<open>KeyError\<close> for a
  missing key.
\<close>

fun all_array_equal ::
  "(string \<times> int list list) list \<Rightarrow> (string \<times> int list list) list \<Rightarrow> error + bool" where
  "all_array_equal [] other = Inr True"
| "all_array_equal ((key, item) # rest) other =
     (case map_of other key of
        None \<Rightarrow> Inl (KeyError key)
      | Some v \<Rightarrow> if array_equal (=) item v then all_array_equal rest other else Inr False)"

text \<open>Lines 129 to 142; \<^verbatim>\<open>and\<close> evaluates its right operand only if the left one holds.\<close>

definition Mesh_eq :: "Mesh \<Rightarrow> operand \<Rightarrow> error + bool" where
  "Mesh_eq self other =
     (case other of
        MeshObj other \<Rightarrow>
          if N_vertices self = N_vertices other
             \<and> N_tets self = N_tets other
             \<and> dict_eq (N_BC_triangles self) (N_BC_triangles other)
             \<and> array_equal float_eq (vertices self) (vertices other)
             \<and> array_equal (=) (tets self) (tets other)
          then all_array_equal (BC_triangles self) (BC_triangles other)
          else Inr False
      | OtherObj \<Rightarrow> Inr False)"

text \<open>A small mesh file: one tetrahedron, one boundary triangle with the code 11.\<close>

definition sample_data :: mesh_data where
  "sample_data =
     \<lparr> points = [[Num 0, Num 0, Num 0], [Num 1, Num 0, Num 0],
                 [Num 0, Num 1, Num 0], [Num 0, Num 0, Num 1]],
       cell_data_dict = [(''gmsh:physical'', [(''triangle'', [11]), (''tetra'', [1])])],
       cells_dict = [(''triangle'', [[0, 1, 2]]), (''tetra'', [[0, 1, 2, 3]])] \<rparr>"

definition sample_mesh :: Mesh where
  "sample_mesh =
     \<lparr> N_vertices = 4,
       vertices = [[Num 0, Num 0, Num 0], [Num 1, Num 0, Num 0],
                   [Num 0, Num 1, Num 0], [Num 0, Num 0, Num 1]],
       N_BC_triangles = [(''slip'', 1)], BC_triangles = [(''slip'', [[0, 1, 2]])],
       N_tets = 1, tets = [[0, 1, 2, 3]],
       EToE = [[0], [0], [0], [0]], EToF = [[0], [1], [2], [3]] \<rparr>"

text \<open>No entry of the coordinate array is a NaN.\<close>

definition no_nan :: "coord list list \<Rightarrow> bool" where
  "no_nan a \<longleftrightarrow> list_all (list_all (\<lambda>c. c \<noteq> NaN)) a"

text \<open>
  The equality of the specification, in its words: the vertex counts, the element counts
  and the per-label triangle counts match, and the coordinate, tetrahedron and per-label
  triangle arrays are element-wise equal. A dictionary is read as the map from its keys
  to its values.
\<close>

definition same_data :: "Mesh \<Rightarrow> Mesh \<Rightarrow> bool" where
  "same_data m1 m2 \<longleftrightarrow>
     N_vertices m1 = N_vertices m2 \<and> N_tets m1 = N_tets m2
     \<and> map_of (N_BC_triangles m1) = map_of (N_BC_triangles m2)
     \<and> array_equal float_eq (vertices m1) (vertices m2)
     \<and> tets m1 = tets m2
     \<and> map_of (BC_triangles m1) = map_of (BC_triangles m2)"

subsection \<open>The arrays as mutable objects\<close>

text \<open>
  A numpy array is a mutable object and a variable holds a reference to it. To tell
  which arrays the connectivity computation writes to, the method is modelled a second
  time over an explicit store: an array is an entry of the store, a variable holds its
  address, an operation that returns a new array allocates a fresh address, and the two
  operations that work in place, \<^verbatim>\<open>a.sort(axis=-1)\<close> and the indexed assignment
  \<^verbatim>\<open>a[idx] = values\<close>, overwrite the entry at the address of \<open>a\<close>. The 1-D and the 2-D
  arrays have their own address spaces.
\<close>

type_synonym address = nat

record store =
  arrays1 :: "int list list"
  arrays2 :: "int list list list"

definition get1 :: "store \<Rightarrow> address \<Rightarrow> int list" where
  "get1 st a = arrays1 st ! a"

definition get2 :: "store \<Rightarrow> address \<Rightarrow> int list list" where
  "get2 st a = arrays2 st ! a"

definition new1 :: "int list \<Rightarrow> store \<Rightarrow> address \<times> store" where
  "new1 v st = (length (arrays1 st), st \<lparr>arrays1 := arrays1 st @ [v]\<rparr>)"

definition new2 :: "int list list \<Rightarrow> store \<Rightarrow> address \<times> store" where
  "new2 rows st = (length (arrays2 st), st \<lparr>arrays2 := arrays2 st @ [rows]\<rparr>)"

definition set2 :: "address \<Rightarrow> int list list \<Rightarrow> store \<Rightarrow> store" where
  "set2 a rows st = st \<lparr>arrays2 := (arrays2 st)[a := rows]\<rparr>"

text \<open>
  Line 189. Indexing with a list of columns, \<^verbatim>\<open>tets[:, [0, 1, 2]]\<close>, is advanced
  indexing and returns a new array; \<^verbatim>\<open>numpy.vstack\<close> returns a new array as well.
\<close>

definition stack_faces :: "address \<Rightarrow> store \<Rightarrow> address \<times> store" where
  "stack_faces tets_at st0 =
     (let (b0, st) = new2 (take_cols (get2 st0 tets_at) [0, 1, 2]) st0;
          (b1, st) = new2 (take_cols (get2 st tets_at) [0, 1, 3]) st;
          (b2, st) = new2 (take_cols (get2 st tets_at) [1, 2, 3]) st;
          (b3, st) = new2 (take_cols (get2 st tets_at) [0, 2, 3]) st
      in new2 (vstack [get2 st b0, get2 st b1, get2 st b2, get2 st b3]) st)"

text \<open>Line 193, \<^verbatim>\<open>face_vertices.sort(axis=-1)\<close>: the array at the address is overwritten.\<close>

definition sort_in_place :: "address \<Rightarrow> store \<Rightarrow> store" where
  "sort_in_place a st = set2 a (sort_rows (get2 st a)) st"

text \<open>
  Lines 218 to 224: the keys, the sorting permutation, and the keys, the faces and the
  slot numbers reordered by it. Indexing with an index array returns a new array, to
  which the variable is bound from then on.
\<close>

definition sort_faces ::
  "(int list \<Rightarrow> nat list) \<Rightarrow> address \<Rightarrow> address \<Rightarrow> store
     \<Rightarrow> (address \<times> address \<times> address) \<times> store" where
  "sort_faces argsort face_vertices_at face_vertices_idx_at st0 =
     (let (face_ids_at, st) = new1 (map tuple_hash (get2 st0 face_vertices_at)) st0;
          (face_ids_sort_indices_at, st) = new1 (map int (argsort (get1 st face_ids_at))) st;
          (face_ids_at, st) =
             new1 (map (\<lambda>i. get1 st face_ids_at ! nat i)
                     (get1 st face_ids_sort_indices_at)) st;
          (face_vertices_at, st) =
             new2 (map (\<lambda>i. get2 st face_vertices_at ! nat i)
                     (get1 st face_ids_sort_indices_at)) st;
          (face_vertices_idx_at, st) =
             new1 (map (\<lambda>i. get1 st face_vertices_idx_at ! nat i)
                     (get1 st face_ids_sort_indices_at)) st
      in ((face_ids_at, face_vertices_at, face_vertices_idx_at), st))"

text \<open>Lines 233 to 249: the slots on the two sides of every matched position.\<close>

definition interior_faces :: "address \<Rightarrow> address \<Rightarrow> store \<Rightarrow> (address \<times> address) \<times> store" where
  "interior_faces face_ids_at face_vertices_idx_at st0 =
     (let (interior_face_id_idx_at, st) =
             new1 (map int (interior_face_id_idx (get1 st0 face_ids_at))) st0;
          (interior_L_face_vertices_idx_at, st) =
             new1 (map (\<lambda>i. get1 st face_vertices_idx_at ! nat i)
                     (get1 st interior_face_id_idx_at)) st;
          (interior_R_face_vertices_idx_at, st) =
             new1 (map (\<lambda>i. get1 st face_vertices_idx_at ! nat (i + 1))
                     (get1 st interior_face_id_idx_at)) st
      in ((interior_L_face_vertices_idx_at, interior_R_face_vertices_idx_at), st))"

text \<open>
  Lines 256 to 263, \<^verbatim>\<open>a[unravel_index(idx, a.shape)] = a[unravel_index(src, a.shape)]\<close>:
  the right-hand side is read, then the array at the address is overwritten.
\<close>

definition assign_in_place :: "nat \<Rightarrow> address \<Rightarrow> nat list \<Rightarrow> nat list \<Rightarrow> store \<Rightarrow> store" where
  "assign_in_place cols a idx src st =
     set2 a (assign_at cols (get2 st a) idx (map (read_at cols (get2 st a)) src)) st"

text \<open>
  The whole method over the store. It takes the address of \<open>tets\<close> and returns the
  addresses of \<open>EToE\<close> and \<open>EToF\<close>, or the error of line 210, and the store it leaves.
\<close>

definition compute_element_connectivity_store ::
  "(int list \<Rightarrow> nat list) \<Rightarrow> address \<Rightarrow> store \<Rightarrow> (error + address \<times> address) \<times> store" where
  "compute_element_connectivity_store argsort tets_at st0 =
     (let N_faces_per_tet = 4;
          N_tets = length (get2 st0 tets_at);
          (face_vertices_at, st) = stack_faces tets_at st0;
          st = sort_in_place face_vertices_at st;
          (face_vertices_idx_at, st) = new1 (map int [0..<N_tets * N_faces_per_tet]) st;
          (EToE_at, st) = new2 (map (map int) (EToE_init N_tets)) st
      in if N_tets = 0 then (Inl reshape_error, st)
         else
           let (EToF_at, st) = new2 (map (map int) (EToF_init N_tets)) st;
               ((face_ids_at, face_vertices_at, face_vertices_idx_at), st) =
                  sort_faces argsort face_vertices_at face_vertices_idx_at st;
               ((interior_L, interior_R), st) =
                  interior_faces face_ids_at face_vertices_idx_at st;
               L = map nat (get1 st interior_L);
               R = map nat (get1 st interior_R);
               st = assign_in_place N_tets EToE_at (L @ R) (R @ L) st;
               st = assign_in_place N_tets EToF_at (L @ R) (R @ L) st
           in (Inr (EToE_at, EToF_at), st))"

text \<open>
  The attributes of a \<^verbatim>\<open>Mesh\<close> that refer to 2-D integer arrays, as addresses, and
  lines 123 to 126 of the constructor: \<^verbatim>\<open>self.tets\<close> is bound to the array that the
  loader delivered, and the method is called on \<^verbatim>\<open>self.tets\<close>.
\<close>

record Mesh_refs =
  tets_ref :: address
  EToE_ref :: address
  EToF_ref :: address

definition init_connectivity ::
  "(int list \<Rightarrow> nat list) \<Rightarrow> address \<Rightarrow> store \<Rightarrow> (error + Mesh_refs) \<times> store" where
  "init_connectivity argsort tetra st0 =
     (let self_tets = tetra;
          (res, st) = compute_element_connectivity_store argsort self_tets st0
      in (case res of
            Inl err \<Rightarrow> Inl err
          | Inr (etoe, etof) \<Rightarrow>
              Inr \<lparr> tets_ref = self_tets, EToE_ref = etoe, EToF_ref = etof \<rparr>,
          st))"

text \<open>Lines 271 to 275, the property \<^verbatim>\<open>EToV\<close>: it returns \<^verbatim>\<open>self.tets\<close>, the same object.\<close>

definition EToV :: "Mesh_refs \<Rightarrow> address" where
  "EToV self = tets_ref self"

text \<open>Every array of the store \<open>st\<close> is in \<open>st'\<close> at the same address with the same entries.\<close>

definition unchanged :: "store \<Rightarrow> store \<Rightarrow> bool" where
  "unchanged st st' \<longleftrightarrow>
     take (length (arrays1 st)) (arrays1 st') = arrays1 st
     \<and> take (length (arrays2 st)) (arrays2 st') = arrays2 st"

text \<open>A store with the tetrahedron array of the two-element scenario and two other arrays.\<close>

definition sample_store :: store where
  "sample_store =
     \<lparr> arrays1 = [[11]], arrays2 = [[[0, 1, 2]], [[0, 1, 2, 3], [1, 2, 3, 4]]] \<rparr>"

section \<open>Properties\<close>

subsection \<open>Indexed reads and writes\<close>

lemma shape_EToE_init: "shape 4 N (EToE_init N)"
  by (simp add: shape_def EToE_init_def list_all_iff)

lemma shape_EToF_init: "shape 4 N (EToF_init N)"
  by (simp add: shape_def EToF_init_def list_all_iff)

lemma unravel_lt:
  assumes "(s::nat) < r * c"
  shows "s div c < r" and "s mod c < c"
proof -
  from assms have c: "0 < c" by (cases c) auto
  show "s div c < r" using assms c by (simp add: less_mult_imp_div_less)
  show "s mod c < c" using c by simp
qed

lemma unravel_inj: "s div c = t div c \<Longrightarrow> s mod c = t mod c \<Longrightarrow> s = (t::nat)"
  by (metis div_mult_mod_eq)

lemma shape_write_at: "shape r c A \<Longrightarrow> shape r c (write_at c sv A)"
proof (cases "fst sv div c < length A")
  case True
  assume "shape r c A"
  then show ?thesis using True
    unfolding shape_def write_at_def unravel_index_def list_all_iff
    by (auto dest!: set_update_subset_insert [THEN subsetD])
next
  case False
  assume "shape r c A"
  then show ?thesis using False
    by (simp add: shape_def write_at_def unravel_index_def list_update_beyond)
qed

lemma read_write_at:
  assumes "shape r c A" "s < r * c" "t < r * c"
  shows "read_at c (write_at c (t, v) A) s = (if s = t then v else read_at c A s)"
proof -
  have A: "length A = r" "\<And>f. f < r \<Longrightarrow> length (A ! f) = c"
    using assms(1) by (auto simp: shape_def list_all_iff)
  have s: "s div c < r" "s mod c < c" and t: "t div c < r" "t mod c < c"
    using unravel_lt assms by blast+
  show ?thesis
  proof (cases "s = t")
    case True
    then show ?thesis using A t by (simp add: read_at_def write_at_def unravel_index_def)
  next
    case False
    then have "s div c \<noteq> t div c \<or> s mod c \<noteq> t mod c" using unravel_inj by blast
    then show ?thesis using A s t False
      by (auto simp: read_at_def write_at_def unravel_index_def nth_list_update)
  qed
qed

lemma shape_fold_write: "shape r c A \<Longrightarrow> shape r c (fold (write_at c) ws A)"
  by (induction ws arbitrary: A) (simp_all add: shape_write_at)

lemma read_fold_write:
  assumes "shape r c A" "s < r * c" "\<forall>w \<in> set ws. fst w < r * c"
  shows "read_at c (fold (write_at c) ws A) s =
           (case map_of (rev ws) s of None \<Rightarrow> read_at c A s | Some v \<Rightarrow> v)"
  using assms
proof (induction ws arbitrary: A)
  case Nil
  then show ?case by simp
next
  case (Cons w ws)
  obtain t v where w: "w = (t, v)" by (cases w)
  have t: "t < r * c" using Cons.prems(3) w by simp
  have sh: "shape r c (write_at c w A)" using Cons.prems(1) by (rule shape_write_at)
  have "read_at c (fold (write_at c) (w # ws) A) s =
        (case map_of (rev ws) s of None \<Rightarrow> read_at c (write_at c w A) s | Some v \<Rightarrow> v)"
    using Cons.IH [OF sh Cons.prems(2)] Cons.prems(3) by simp
  also have "\<dots> = (case map_of (rev (w # ws)) s of None \<Rightarrow> read_at c A s | Some v \<Rightarrow> v)"
    using read_write_at [OF Cons.prems(1) Cons.prems(2) t, of v]
    by (auto simp: w map_add_def split: option.splits)
  finally show ?case .
qed

subsection \<open>The pairs written by the connectivity computation\<close>

lemma length_face_vertices: "length (face_vertices tet_array) = 4 * length tet_array"
  by (simp add: face_vertices_def sort_rows_def vstack_def face_cols_def take_cols_def)

lemma length_face_ids: "length (face_ids tet_array) = 4 * length tet_array"
  by (simp add: face_ids_def length_face_vertices)

lemma set_interior:
  "set (interior_face_id_idx (map (\<lambda>i. ks ! i) p)) =
     {i. i + 1 < length p \<and> ks ! (p ! i) = ks ! (p ! (i + 1))}"
  by (auto simp: interior_face_id_idx_def)

lemma set_slot_pairs:
  "set (slot_pairs ks p) =
     {(p ! i, p ! (i + 1)) | i. i + 1 < length p \<and> ks ! (p ! i) = ks ! (p ! (i + 1))}
   \<union> {(p ! (i + 1), p ! i) | i. i + 1 < length p \<and> ks ! (p ! i) = ks ! (p ! (i + 1))}"
proof -
  define I where "I = interior_face_id_idx (map (\<lambda>i. ks ! i) p)"
  have "slot_pairs ks p =
          zip (map (\<lambda>i. p ! i) I) (map (\<lambda>i. p ! (i + 1)) I)
          @ zip (map (\<lambda>i. p ! (i + 1)) I) (map (\<lambda>i. p ! i) I)"
    by (simp add: slot_pairs_def I_def Let_def)
  then have "set (slot_pairs ks p) =
          (\<lambda>i. (p ! i, p ! (i + 1))) ` set I \<union> (\<lambda>i. (p ! (i + 1), p ! i)) ` set I"
    by (simp add: zip_map_map zip_same_conv_map image_image)
  then show ?thesis
    unfolding I_def set_interior by auto
qed

lemma slot_pairs_sym: "(t, s) \<in> set (slot_pairs ks p) \<Longrightarrow> (s, t) \<in> set (slot_pairs ks p)"
  unfolding set_slot_pairs by blast

lemma slot_pairs_sound:
  assumes "is_argsort ks p" "(t, s) \<in> set (slot_pairs ks p)"
  shows "t < length ks \<and> s < length ks \<and> t \<noteq> s \<and> ks ! t = ks ! s"
proof -
  have p: "length p = length ks" "distinct p" "\<And>i. i < length p \<Longrightarrow> p ! i < length ks"
    using assms(1) by (auto simp: is_argsort_def list_all_length)
  from assms(2) obtain i where i: "i + 1 < length p" "ks ! (p ! i) = ks ! (p ! (i + 1))"
    and ts: "(t, s) = (p ! i, p ! (i + 1)) \<or> (t, s) = (p ! (i + 1), p ! i)"
    unfolding set_slot_pairs by blast
  have "p ! i \<noteq> p ! (i + 1)"
    using p(2) i(1) by (simp add: nth_eq_iff_index_eq)
  moreover have "p ! i < length ks" "p ! (i + 1) < length ks"
    using p(3) i(1) by simp_all
  ultimately show ?thesis using ts i(2) by auto
qed

lemma argsort_set:
  assumes "is_argsort ks p"
  shows "set p = {0..<length ks}"
proof -
  have p: "length p = length ks" "distinct p" "set p \<subseteq> {0..<length ks}"
    using assms by (auto simp: is_argsort_def list_all_iff)
  have "card (set p) = card {0..<length ks}"
    using p(1,2) by (simp add: distinct_card)
  with p(3) show ?thesis by (simp add: card_subset_eq)
qed

lemma slot_pairs_complete:
  assumes srt: "is_argsort ks p"
    and st: "s < length ks" "t < length ks" "s \<noteq> t" "ks ! s = ks ! t"
  shows "\<exists>u. (s, u) \<in> set (slot_pairs ks p)"
proof -
  have len: "length p = length ks" and sorted: "sorted (map (\<lambda>i. ks ! i) p)"
    using srt by (auto simp: is_argsort_def)
  from st(1,2) argsort_set [OF srt] obtain i j
    where i: "i < length p" "p ! i = s" and j: "j < length p" "p ! j = t"
    by (metis atLeastLessThan_iff in_set_conv_nth zero_le)
  have ij: "i \<noteq> j" using st(3) i(2) j(2) by auto
  have mono: "\<And>a b. a \<le> b \<Longrightarrow> b < length p \<Longrightarrow> ks ! (p ! a) \<le> ks ! (p ! b)"
    using sorted by (simp add: sorted_iff_nth_mono)
  show ?thesis
  proof (cases "i < j")
    case True
    then have "ks ! (p ! i) \<le> ks ! (p ! (i + 1))" "ks ! (p ! (i + 1)) \<le> ks ! (p ! j)"
      using mono j(1) by simp_all
    then have "ks ! (p ! i) = ks ! (p ! (i + 1))" using st(4) i(2) j(2) by simp
    moreover have "i + 1 < length p" using True j(1) by simp
    ultimately have "(p ! i, p ! (i + 1)) \<in> set (slot_pairs ks p)"
      unfolding set_slot_pairs by blast
    then show ?thesis using i(2) by blast
  next
    case False
    then have ji: "j < i" using ij by simp
    then obtain k where k: "i = k + 1" by (cases i) auto
    have "ks ! (p ! j) \<le> ks ! (p ! k)" "ks ! (p ! k) \<le> ks ! (p ! (k + 1))"
      using mono ji k i(1) by simp_all
    then have "ks ! (p ! k) = ks ! (p ! (k + 1))" using st(4) i(2) j(2) k by simp
    moreover have "k + 1 < length p" using i(1) k by simp
    ultimately have "(p ! (k + 1), p ! k) \<in> set (slot_pairs ks p)"
      unfolding set_slot_pairs by blast
    then show ?thesis using i(2) k by blast
  qed
qed

lemma at_most_twiceD:
  assumes "at_most_twice ks"
    and "s < length ks" "t < length ks" "u < length ks"
    and "ks ! s = ks ! t" "ks ! s = ks ! u"
    and "s \<noteq> t" "s \<noteq> u"
  shows "t = u"
proof (rule ccontr)
  assume tu: "t \<noteq> u"
  let ?S = "{i. i < length ks \<and> ks ! s = ks ! i}"
  have "count_list ks (ks ! s) \<le> 2"
    using assms(1,2) by (simp add: at_most_twice_def list_all_iff)
  moreover have "count_list ks (ks ! s) = card ?S"
    by (simp add: count_list_eq_length_filter length_filter_conv_card)
  moreover have "{s, t, u} \<subseteq> ?S" using assms by auto
  then have "card {s, t, u} \<le> card ?S" by (intro card_mono) auto
  moreover have "card {s, t, u} = 3" using assms(7,8) tu by simp
  ultimately show False by simp
qed

lemma read_at_EToE_init: "s < 4 * N \<Longrightarrow> read_at N (EToE_init N) s = s mod N"
proof -
  assume s: "s < 4 * N"
  then have "s div N < 4" "s mod N < N" using unravel_lt [of s 4 N] by simp_all
  then show ?thesis by (simp add: read_at_def unravel_index_def EToE_init_def)
qed

lemma read_at_EToF_init: "s < 4 * N \<Longrightarrow> read_at N (EToF_init N) s = s div N"
proof -
  assume s: "s < 4 * N"
  then have "s div N < 4" "s mod N < N" using unravel_lt [of s 4 N] by simp_all
  then show ?thesis by (simp add: read_at_def unravel_index_def EToF_init_def)
qed

lemma connectivity_unfold:
  assumes ne: "tet_array \<noteq> []"
    and srt: "is_argsort (face_ids tet_array) (argsort (face_ids tet_array))"
  shows "compute_element_connectivity argsort tet_array =
    Inr (fold (write_at (length tet_array))
           (map (\<lambda>(t, s). (t, read_at (length tet_array) (EToE_init (length tet_array)) s))
              (slot_pairs (face_ids tet_array) (argsort (face_ids tet_array))))
           (EToE_init (length tet_array)),
         fold (write_at (length tet_array))
           (map (\<lambda>(t, s). (t, read_at (length tet_array) (EToF_init (length tet_array)) s))
              (slot_pairs (face_ids tet_array) (argsort (face_ids tet_array))))
           (EToF_init (length tet_array)))"
proof -
  let ?p = "argsort (face_ids tet_array)"
  have "\<And>i. i \<in> set ?p \<Longrightarrow> [0..<length tet_array * 4] ! i = i"
    using srt by (auto simp: is_argsort_def list_all_iff length_face_ids)
  then have idx: "map (\<lambda>i. [0..<length tet_array * 4] ! i) ?p = ?p"
    by (simp add: map_idI)
  show ?thesis
    using ne
    by (simp add: compute_element_connectivity_def Let_def idx assign_at_def slot_pairs_def
        zip_map2 del: map_append)
qed

lemma last_source_SomeD:
  "last_source ks p s = Some t \<Longrightarrow> (s, t) \<in> set (slot_pairs ks p)"
  unfolding last_source_def by (drule map_of_SomeD) simp

lemma last_source_None_iff:
  "last_source ks p s = None \<longleftrightarrow> (\<forall>t. (s, t) \<notin> set (slot_pairs ks p))"
  unfolding last_source_def by (force simp: map_of_eq_None_iff)

lemma connectivity_entry:
  assumes ne: "tet_array \<noteq> []"
    and srt: "is_argsort (face_ids tet_array) (argsort (face_ids tet_array))"
    and res: "compute_element_connectivity argsort tet_array = Inr (etoe, etof)"
    and f: "f < 4" and e: "e < length tet_array"
  shows "etoe ! f ! e =
           (case last_source (face_ids tet_array) (argsort (face_ids tet_array)) (f * length tet_array + e)
            of None \<Rightarrow> e | Some t \<Rightarrow> t mod length tet_array)"
    and "etof ! f ! e =
           (case last_source (face_ids tet_array) (argsort (face_ids tet_array)) (f * length tet_array + e)
            of None \<Rightarrow> f | Some t \<Rightarrow> t div length tet_array)"
proof -
  let ?N = "length tet_array"
  let ?W = "slot_pairs (face_ids tet_array) (argsort (face_ids tet_array))"
  let ?s = "f * ?N + e"
  have s: "?s < 4 * ?N"
  proof -
    have "f * ?N + e < f * ?N + ?N" using e by simp
    also have "\<dots> = (f + 1) * ?N" by simp
    also have "\<dots> \<le> 4 * ?N" using f by (intro mult_le_mono1) simp
    finally show ?thesis .
  qed
  have un: "unravel_index ?N ?s = (f, e)" using e ne by (simp add: unravel_index_def)
  have snd_lt: "t < 4 * ?N" if "(u, t) \<in> set ?W" for u t
    using slot_pairs_sound [OF srt that] by (simp add: length_face_ids)
  have fst_lt: "\<forall>w \<in> set (map (\<lambda>(t, s). (t, g s)) ?W). fst w < 4 * ?N" for g :: "nat \<Rightarrow> nat"
    using slot_pairs_sound [OF srt] by (auto simp: length_face_ids)
  have mo: "map_of (rev (map (\<lambda>(t, s). (t, g s)) ?W)) ?s
              = map_option g (last_source (face_ids tet_array) (argsort (face_ids tet_array)) ?s)"
    for g :: "nat \<Rightarrow> nat"
    by (simp add: last_source_def rev_map map_of_map)
  from res have E: "etoe = fold (write_at ?N)
           (map (\<lambda>(t, s). (t, read_at ?N (EToE_init ?N) s)) ?W) (EToE_init ?N)"
    and F: "etof = fold (write_at ?N)
           (map (\<lambda>(t, s). (t, read_at ?N (EToF_init ?N) s)) ?W) (EToF_init ?N)"
    unfolding connectivity_unfold [of tet_array argsort, OF ne srt] by simp_all
  have "etoe ! f ! e = read_at ?N etoe ?s" by (simp add: read_at_def un)
  also have "\<dots> = (case map_option (read_at ?N (EToE_init ?N))
                      (last_source (face_ids tet_array) (argsort (face_ids tet_array)) ?s)
                    of None \<Rightarrow> read_at ?N (EToE_init ?N) ?s | Some v \<Rightarrow> v)"
    unfolding E by (simp only: read_fold_write [OF shape_EToE_init s fst_lt] mo)
  also have "\<dots> = (case last_source (face_ids tet_array) (argsort (face_ids tet_array)) ?s
            of None \<Rightarrow> e | Some t \<Rightarrow> t mod ?N)"
    using snd_lt e ne
    by (auto simp: read_at_EToE_init s split: option.splits dest!: last_source_SomeD)
  finally show "etoe ! f ! e =
           (case last_source (face_ids tet_array) (argsort (face_ids tet_array)) ?s
            of None \<Rightarrow> e | Some t \<Rightarrow> t mod ?N)" .
  have "etof ! f ! e = read_at ?N etof ?s" by (simp add: read_at_def un)
  also have "\<dots> = (case map_option (read_at ?N (EToF_init ?N))
                      (last_source (face_ids tet_array) (argsort (face_ids tet_array)) ?s)
                    of None \<Rightarrow> read_at ?N (EToF_init ?N) ?s | Some v \<Rightarrow> v)"
    unfolding F by (simp only: read_fold_write [OF shape_EToF_init s fst_lt] mo)
  also have "\<dots> = (case last_source (face_ids tet_array) (argsort (face_ids tet_array)) ?s
            of None \<Rightarrow> f | Some t \<Rightarrow> t div ?N)"
    using snd_lt e ne
    by (auto simp: read_at_EToF_init s split: option.splits dest!: last_source_SomeD)
  finally show "etof ! f ! e =
           (case last_source (face_ids tet_array) (argsort (face_ids tet_array)) ?s
            of None \<Rightarrow> f | Some t \<Rightarrow> t div ?N)" .
qed

lemma connectivity_shape:
  assumes ne: "tet_array \<noteq> []"
    and srt: "is_argsort (face_ids tet_array) (argsort (face_ids tet_array))"
    and res: "compute_element_connectivity argsort tet_array = Inr (etoe, etof)"
  shows "shape 4 (length tet_array) etoe" and "shape 4 (length tet_array) etof"
  using res unfolding connectivity_unfold [of tet_array argsort, OF ne srt]
  by (auto intro: shape_fold_write shape_EToE_init shape_EToF_init)

lemma slot_index:
  assumes "(f::nat) < 4" "(e::nat) < N"
  shows "f * N + e < 4 * N" "(f * N + e) div N = f" "(f * N + e) mod N = e"
proof -
  have "f * N + e < f * N + N" using assms(2) by simp
  also have "\<dots> = (f + 1) * N" by simp
  also have "\<dots> \<le> 4 * N" using assms(1) by (intro mult_le_mono1) simp
  finally show "f * N + e < 4 * N" .
  show "(f * N + e) div N = f" "(f * N + e) mod N = e" using assms(2) by simp_all
qed

lemma last_source_unique:
  assumes srt: "is_argsort ks p" and two: "at_most_twice ks"
    and st: "(s, t) \<in> set (slot_pairs ks p)"
  shows "last_source ks p s = Some t"
proof -
  from st have "last_source ks p s \<noteq> None" by (simp add: last_source_None_iff) blast
  then obtain u where u: "last_source ks p s = Some u" by blast
  then have su: "(s, u) \<in> set (slot_pairs ks p)" by (rule last_source_SomeD)
  have "u = t"
    using at_most_twiceD [OF two, of s u t]
      slot_pairs_sound [OF srt su] slot_pairs_sound [OF srt st] by auto
  with u show ?thesis by simp
qed

lemma symmetry_if_keys_at_most_twice:
  assumes ne: "tet_array \<noteq> []"
    and srt: "is_argsort (face_ids tet_array) (argsort (face_ids tet_array))"
    and two: "at_most_twice (face_ids tet_array)"
    and res: "compute_element_connectivity argsort tet_array = Inr (etoe, etof)"
    and f: "f < 4" and e: "e < length tet_array"
    and nb: "etoe ! f ! e \<noteq> e"
  shows "etoe ! (etof ! f ! e) ! (etoe ! f ! e) = e \<and> etof ! (etof ! f ! e) ! (etoe ! f ! e) = f"
proof -
  let ?N = "length tet_array"
  let ?ks = "face_ids tet_array"
  let ?p = "argsort ?ks"
  let ?s = "f * ?N + e"
  note entry = connectivity_entry [of tet_array argsort, OF ne srt res]
  from nb entry(1) [OF f e] obtain t where t: "last_source ?ks ?p ?s = Some t"
    by (cases "last_source ?ks ?p ?s") auto
  have E: "etoe ! f ! e = t mod ?N" and F: "etof ! f ! e = t div ?N"
    using entry [OF f e] t by simp_all
  have st: "(?s, t) \<in> set (slot_pairs ?ks ?p)" using t by (rule last_source_SomeD)
  then have tlt: "t < 4 * ?N" using slot_pairs_sound [OF srt st] by (simp add: length_face_ids)
  then have tf: "t div ?N < 4" and te: "t mod ?N < ?N" using unravel_lt [of t 4 ?N] by simp_all
  have ret: "last_source ?ks ?p t = Some ?s"
    using last_source_unique [OF srt two slot_pairs_sym [OF st]] .
  have "t div ?N * ?N + t mod ?N = t" by simp
  then show ?thesis
    using entry [OF tf te] ret E F slot_index(2,3) [OF f e] by simp
qed

lemma shape_eqI:
  assumes "shape r c A" "shape r c B"
    and "\<And>f e. f < r \<Longrightarrow> e < c \<Longrightarrow> A ! f ! e = B ! f ! e"
  shows "A = B"
proof (rule nth_equalityI)
  show "length A = length B" using assms(1,2) by (simp add: shape_def)
  fix f assume f: "f < length A"
  then have fr: "f < r" using assms(1) by (simp add: shape_def)
  have la: "length (A ! f) = c" using assms(1) f by (simp add: shape_def list_all_length)
  have lb: "length (B ! f) = c" using assms(1,2) f by (simp add: shape_def list_all_length)
  show "A ! f = B ! f"
    by (rule nth_equalityI) (simp_all add: la lb assms(3) fr)
qed

lemma last_source_determined:
  assumes srt: "is_argsort ks p" and srt': "is_argsort ks' p'"
    and len: "length ks' = length ks"
    and two: "at_most_twice ks"
    and rel: "\<And>s t. s < length ks \<Longrightarrow> t < length ks \<Longrightarrow> (ks ! s = ks ! t) = (ks' ! s = ks' ! t)"
    and s: "s < length ks"
  shows "last_source ks' p' s = last_source ks p s"
proof (cases "last_source ks p s")
  case None
  have "(s, t) \<notin> set (slot_pairs ks' p')" for t
  proof
    assume st: "(s, t) \<in> set (slot_pairs ks' p')"
    from slot_pairs_sound [OF srt' st] have "t < length ks" "s \<noteq> t" "ks ! s = ks ! t"
      using rel [OF s, of t] len by auto
    from slot_pairs_complete [OF srt s this] None show False
      by (simp add: last_source_None_iff)
  qed
  then have "last_source ks' p' s = None" by (simp add: last_source_None_iff)
  then show ?thesis using None by simp
next
  case (Some t)
  then have st: "(s, t) \<in> set (slot_pairs ks p)" by (rule last_source_SomeD)
  from slot_pairs_sound [OF srt st] have t: "t < length ks" "s \<noteq> t" "ks ! s = ks ! t" by auto
  then have "ks' ! s = ks' ! t" using rel [OF s t(1)] by simp
  from slot_pairs_complete [OF srt' _ _ t(2) this] s t(1) len
  obtain u where "(s, u) \<in> set (slot_pairs ks' p')" by auto
  then have "last_source ks' p' s \<noteq> None" by (auto simp: last_source_None_iff)
  then obtain v where v: "last_source ks' p' s = Some v" by blast
  then have sv: "(s, v) \<in> set (slot_pairs ks' p')" by (rule last_source_SomeD)
  from slot_pairs_sound [OF srt' sv] have "v < length ks" "s \<noteq> v" "ks ! s = ks ! v"
    using rel [OF s, of v] len by auto
  then have "t = v" using at_most_twiceD [OF two s t(1) _ t(3) _ t(2)] by blast
  then show ?thesis using v Some by simp
qed

lemma connectivity_determined:
  assumes ne: "tet_array \<noteq> []" and len: "length tet_array' = length tet_array"
    and srt: "is_argsort (face_ids tet_array) (argsort (face_ids tet_array))"
    and srt': "is_argsort (face_ids tet_array') (argsort' (face_ids tet_array'))"
    and two: "at_most_twice (face_ids tet_array)"
    and rel: "\<And>s t. s < 4 * length tet_array \<Longrightarrow> t < 4 * length tet_array \<Longrightarrow>
               (face_ids tet_array ! s = face_ids tet_array ! t) = (face_ids tet_array' ! s = face_ids tet_array' ! t)"
  shows "compute_element_connectivity argsort' tet_array' = compute_element_connectivity argsort tet_array"
proof -
  have ne': "tet_array' \<noteq> []" using ne len by auto
  obtain E F where r: "compute_element_connectivity argsort tet_array = Inr (E, F)"
    using connectivity_unfold [of tet_array argsort, OF ne srt] by blast
  obtain E' F' where r': "compute_element_connectivity argsort' tet_array' = Inr (E', F')"
    using connectivity_unfold [of tet_array' argsort', OF ne' srt'] by blast
  note sh = connectivity_shape [of tet_array argsort, OF ne srt r]
  note sh' = connectivity_shape [of tet_array' argsort', OF ne' srt' r', unfolded len]
  have ls: "last_source (face_ids tet_array') (argsort' (face_ids tet_array')) (f * length tet_array + e)
          = last_source (face_ids tet_array) (argsort (face_ids tet_array)) (f * length tet_array + e)"
    if "f < 4" "e < length tet_array" for f e
    using last_source_determined [OF srt srt' _ two] rel slot_index(1) [OF that]
    by (simp add: length_face_ids len)
  have "E' = E"
    by (rule shape_eqI [OF sh'(1) sh(1)])
      (simp add: connectivity_entry(1) [of tet_array argsort, OF ne srt r]
        connectivity_entry(1) [of tet_array' argsort', OF ne' srt' r'] len ls cong: option.case_cong)
  moreover have "F' = F"
    by (rule shape_eqI [OF sh'(2) sh(2)])
      (simp add: connectivity_entry(2) [of tet_array argsort, OF ne srt r]
        connectivity_entry(2) [of tet_array' argsort', OF ne' srt' r'] len ls cong: option.case_cong)
  ultimately show ?thesis using r r' by simp
qed

subsection \<open>The scenario of two tetrahedra sharing one face\<close>

lemma two_tets_keys:
  "is_argsort (face_ids [[0, 1, 2, 3], [1, 2, 3, 4]]) (stable_argsort (face_ids [[0, 1, 2, 3], [1, 2, 3, 4]]))"
  "at_most_twice (face_ids [[0, 1, 2, 3], [1, 2, 3, 4]])"
  by code_simp+

lemma two_tets_stable:
  "compute_element_connectivity stable_argsort [[0, 1, 2, 3], [1, 2, 3, 4]] =
     Inr ([[0, 0], [0, 1], [1, 1], [0, 1]], [[0, 2], [1, 1], [0, 2], [3, 3]])"
  by code_simp

text \<open>
  Claim C6. For \<open>tets = [[0,1,2,3],[1,2,3,4]]\<close> the method returns, whatever order
  \<^verbatim>\<open>numpy.argsort\<close> gives to equal keys, the tables
  \<open>EToE = [[0,0],[0,1],[1,1],[0,1]]\<close> and \<open>EToF = [[0,2],[1,1],[0,2],[3,3]]\<close>: local face 2
  of element 0 and local face 0 of element 1 (the vertex set \<open>{1,2,3}\<close>) refer to each
  other, \<open>EToE[2,0] = 1\<close>, \<open>EToF[2,0] = 0\<close>, \<open>EToE[0,1] = 0\<close>, \<open>EToF[0,1] = 2\<close>, and the
  six other face slots hold their own element and face index.
\<close>

theorem two_tets_sharing_one_face:
  assumes "is_argsort (face_ids [[0, 1, 2, 3], [1, 2, 3, 4]])
             (argsort (face_ids [[0, 1, 2, 3], [1, 2, 3, 4]]))"
  shows "compute_element_connectivity argsort [[0, 1, 2, 3], [1, 2, 3, 4]] =
     Inr ([[0, 0], [0, 1], [1, 1], [0, 1]], [[0, 2], [1, 1], [0, 2], [3, 3]])"
  using connectivity_determined [of "[[0, 1, 2, 3], [1, 2, 3, 4]]" "[[0, 1, 2, 3], [1, 2, 3, 4]]"
      stable_argsort argsort, OF _ _ two_tets_keys(1) assms two_tets_keys(2)]
  by (simp add: two_tets_stable)

theorem two_tets_sharing_one_face_witness:
  "is_argsort (face_ids [[0, 1, 2, 3], [1, 2, 3, 4]])
     (stable_argsort (face_ids [[0, 1, 2, 3], [1, 2, 3, 4]]))
   \<and> compute_element_connectivity stable_argsort [[0, 1, 2, 3], [1, 2, 3, 4]] =
     Inr ([[0, 0], [0, 1], [1, 1], [0, 1]], [[0, 2], [1, 1], [0, 2], [3, 3]])"
  using two_tets_sharing_one_face [of stable_argsort] two_tets_keys(1) by simp

subsection \<open>Two different faces with the same match key\<close>

text \<open>
  The sorted triples \<open>(9, 10, 477945)\<close> and \<open>(13824, 136487, 136488)\<close> have the same
  hash, \<open>-8094804343624863230\<close>, so that line 218 does not produce \<open>a unique number\<close>
  for each face, as its comment says.
\<close>

lemma colliding_keys:
  "tuple_hash [9, 10, 477945] = - 8094804343624863230"
  "tuple_hash [13824, 136487, 136488] = - 8094804343624863230"
  by code_simp+

lemma ids_A2: "face_ids [[9, 10, 477945, 0], [13824, 136487, 136488, 1]] =
  [- 8094804343624863230, - 8094804343624863230, 4069524003967649180,
  6943439472602514490, 8127945374786549710, 3158094248723069512,
  4834428023718972701, - 4995663845005038701]"
  by code_simp

lemma conn_A2: "compute_element_connectivity stable_argsort [[9, 10, 477945, 0], [13824, 136487, 136488, 1]]
  = Inr ([[1, 0], [0, 1], [0, 1], [0, 1]], [[0, 0], [1, 1], [2, 2], [3, 3]])"
  by code_simp

lemma conn_A2r: "compute_element_connectivity stable_argsort
     (relabel (transpose_vertices 9 11) [[9, 10, 477945, 0], [13824, 136487, 136488, 1]])
  = Inr ([[0, 1], [0, 1], [0, 1], [0, 1]], [[0, 0], [1, 1], [2, 2], [3, 3]])"
  by code_simp

lemma conn_A3: "compute_element_connectivity stable_argsort
     [[9, 10, 477945, 0], [9, 10, 477945, 1], [13824, 136487, 136488, 2]]
  = Inr ([[1, 0, 1], [0, 1, 2], [0, 1, 2], [0, 1, 2]], [[0, 0, 0], [1, 1, 1], [2, 2, 2], [3, 3, 3]])"
  by code_simp

lemma fv_A3: "at_most_twice (face_vertices [[9, 10, 477945, 0], [9, 10, 477945, 1], [13824, 136487, 136488, 2]])"
  by code_simp

lemma fv_A2: "face_vertices [[9, 10, 477945, 0], [13824, 136487, 136488, 1]] =
  [[9, 10, 477945], [13824, 136487, 136488], [0, 9, 10], [1, 13824, 136487],
   [0, 10, 477945], [1, 136487, 136488], [0, 9, 477945], [1, 13824, 136488]]"
  by code_simp

text \<open>
  Claim C2 (the code fails it). For \<open>tets = [[9,10,477945,0],[13824,136487,136488,1]]\<close> the
  two tetrahedra have no vertex in common, yet face slot 0 (local face 0 of element 0, sorted
  triple \<open>(9,10,477945)\<close>) and face slot 1 (local face 0 of element 1, sorted triple
  \<open>(13824,136487,136488)\<close>) get equal match keys and the pairing step pairs them:
  \<open>EToE[0,0] = 1\<close> and \<open>EToE[0,1] = 0\<close>. The keys are equal although the sorted triples
  differ. All eight keys occur at most twice, so the result does not depend on how
  \<^verbatim>\<open>numpy.argsort\<close> orders equal keys (\<open>connectivity_determined\<close>).
\<close>

theorem collision_pairs_different_faces:
  "face_vertices [[9, 10, 477945, 0], [13824, 136487, 136488, 1]] ! 0
     \<noteq> face_vertices [[9, 10, 477945, 0], [13824, 136487, 136488, 1]] ! 1
   \<and> face_ids [[9, 10, 477945, 0], [13824, 136487, 136488, 1]] ! 0
     = face_ids [[9, 10, 477945, 0], [13824, 136487, 136488, 1]] ! 1
   \<and> compute_element_connectivity stable_argsort [[9, 10, 477945, 0], [13824, 136487, 136488, 1]]
     = Inr ([[1, 0], [0, 1], [0, 1], [0, 1]], [[0, 0], [1, 1], [2, 2], [3, 3]])"
  by (simp add: fv_A2 ids_A2 conn_A2)

text \<open>
  Claim C1 (the code fails it). In
  \<open>tets = [[9,10,477945,0],[9,10,477945,1],[13824,136487,136488,2]]\<close> every face vertex set
  occurs at most twice: elements 0 and 1 share the face \<open>{9,10,477945}\<close>, every other
  face occurs once. Local face 0 of element 2 has the key of that shared face, so three
  slots carry one key and the returned tables are not symmetric: \<open>EToE[0,2] = 1\<close> and
  \<open>EToF[0,2] = 0\<close>, but \<open>EToE[0,1] = 0\<close>, not 2.
\<close>

theorem collision_breaks_symmetry:
  "at_most_twice (face_vertices [[9, 10, 477945, 0], [9, 10, 477945, 1], [13824, 136487, 136488, 2]])
   \<and> (case compute_element_connectivity stable_argsort
             [[9, 10, 477945, 0], [9, 10, 477945, 1], [13824, 136487, 136488, 2]] of
         Inl err \<Rightarrow> False
       | Inr (etoe, etof) \<Rightarrow>
           etoe ! 0 ! 2 = 1 \<and> etof ! 0 ! 2 = 0
           \<and> etoe ! (etof ! 0 ! 2) ! (etoe ! 0 ! 2) = 0)"
  by (simp add: fv_A3 conn_A3)

text \<open>
  Claim C8 (the code fails it). Exchanging the vertex indices 9 and 11, a permutation of
  the vertex index namespace, turns \<open>[[9,10,477945,0],[13824,136487,136488,1]]\<close> into
  \<open>[[11,10,477945,0],[13824,136487,136488,1]]\<close>. The topology is the same (two
  tetrahedra with no common vertex), but the first array gives \<open>EToE[0,0] = 1\<close>,
  \<open>EToE[0,1] = 0\<close> and the relabelled one gives every face as a boundary face.
\<close>

theorem collision_breaks_relabelling_invariance:
  "compute_element_connectivity stable_argsort
     (relabel (transpose_vertices 9 11) [[9, 10, 477945, 0], [13824, 136487, 136488, 1]])
   = Inr ([[0, 1], [0, 1], [0, 1], [0, 1]], [[0, 0], [1, 1], [2, 2], [3, 3]])
   \<and> compute_element_connectivity stable_argsort [[9, 10, 477945, 0], [13824, 136487, 136488, 1]]
   = Inr ([[1, 0], [0, 1], [0, 1], [0, 1]], [[0, 0], [1, 1], [2, 2], [3, 3]])"
  by (simp add: conn_A2 conn_A2r)

subsection \<open>Boundary markers\<close>

lemma key_occurs_onceD:
  assumes "key_occurs_once ks s" "s < length ks" "t < length ks" "ks ! t = ks ! s"
  shows "t = s"
proof (rule ccontr)
  assume ts: "t \<noteq> s"
  let ?S = "{i. i < length ks \<and> ks ! s = ks ! i}"
  have "card ?S = 1"
    using assms(1)
    by (simp add: key_occurs_once_def count_list_eq_length_filter length_filter_conv_card)
  moreover have "{s, t} \<subseteq> ?S" using assms by auto
  then have "card {s, t} \<le> card ?S" by (intro card_mono) auto
  moreover have "card {s, t} = 2" using ts by simp
  ultimately show False by simp
qed

lemma unwritten_if_key_occurs_once:
  assumes srt: "is_argsort ks p" and once: "key_occurs_once ks s" and s: "s < length ks"
  shows "last_source ks p s = None"
proof (cases "last_source ks p s")
  case None
  then show ?thesis .
next
  case (Some t)
  then have "(s, t) \<in> set (slot_pairs ks p)" by (rule last_source_SomeD)
  from slot_pairs_sound [OF srt this] key_occurs_onceD [OF once s, of t]
  show ?thesis by auto
qed

lemma distinct_face_keysD:
  assumes "distinct_face_keys tet_array" "e < length tet_array" "f < 4" "g < 4"
    and "face_ids tet_array ! (f * length tet_array + e) = face_ids tet_array ! (g * length tet_array + e)"
  shows "f = g"
proof -
  have "distinct (map (\<lambda>f. face_ids tet_array ! (f * length tet_array + e)) [0..<4])"
    using assms(1,2) by (simp add: distinct_face_keys_def list_all_iff)
  then have "inj_on (\<lambda>f. face_ids tet_array ! (f * length tet_array + e)) (set [0..<4])"
    by (simp add: distinct_map)
  then show ?thesis using assms(3,4,5) by (auto dest: inj_onD)
qed

lemma conn_B: "compute_element_connectivity stable_argsort [[0, 1, 2, 3], [0, 1, 2, 4]]
  = Inr ([[1, 0], [0, 1], [0, 1], [0, 1]], [[0, 0], [1, 1], [2, 2], [3, 3]])"
  by code_simp

lemma keys_B:
  "is_argsort (face_ids [[0, 1, 2, 3], [0, 1, 2, 4]]) (stable_argsort (face_ids [[0, 1, 2, 3], [0, 1, 2, 4]]))"
  "distinct_face_keys [[0, 1, 2, 3], [0, 1, 2, 4]]"
  by code_simp+

text \<open>
  Claim C4, as stated, fails. In \<open>tets = [[0,1,2,3],[0,1,2,4]]\<close> the two tetrahedra share
  the face \<open>{0,1,2}\<close>, which is local face 0 of both. So \<open>EToF[0,0] = 0\<close>, the face's own
  index, although \<open>EToE[0,0] = 1\<close> is a neighbour: \<open>EToF[f,e] = f\<close> does not mark a
  boundary face.
\<close>

theorem own_face_index_counterexample:
  "\<not> (case compute_element_connectivity stable_argsort [[0, 1, 2, 3], [0, 1, 2, 4]] of
         Inl err \<Rightarrow> True
       | Inr (etoe, etof) \<Rightarrow> (etoe ! 0 ! 0 = 0) = (etof ! 0 ! 0 = 0))"
  by (simp add: conn_B)

text \<open>
  Claim C4, amended. Where no two local faces of one element have the same match key
  (as for tetrahedra with four distinct vertices whose face keys do not collide), a
  self-reference in \<open>EToE\<close> implies a self-reference in \<open>EToF\<close>: if \<open>EToE[f,e] = e\<close>
  then \<open>EToF[f,e] = f\<close>. The converse does not hold.
\<close>

theorem self_reference_implies_own_face:
  assumes ne: "tet_array \<noteq> []"
    and srt: "is_argsort (face_ids tet_array) (argsort (face_ids tet_array))"
    and dk: "distinct_face_keys tet_array"
    and res: "compute_element_connectivity argsort tet_array = Inr (etoe, etof)"
    and f: "f < 4" and e: "e < length tet_array"
    and self: "etoe ! f ! e = e"
  shows "etof ! f ! e = f"
proof (cases "last_source (face_ids tet_array) (argsort (face_ids tet_array)) (f * length tet_array + e)")
  case None
  then show ?thesis
    using connectivity_entry(2) [of tet_array argsort, OF ne srt res f e] by simp
next
  case (Some t)
  let ?N = "length tet_array"
  have st: "(f * ?N + e, t) \<in> set (slot_pairs (face_ids tet_array) (argsort (face_ids tet_array)))"
    using Some by (rule last_source_SomeD)
  from slot_pairs_sound [OF srt st]
  have t: "t < 4 * ?N" "f * ?N + e \<noteq> t" "face_ids tet_array ! (f * ?N + e) = face_ids tet_array ! t"
    by (simp_all add: length_face_ids)
  have tf: "t div ?N < 4" using unravel_lt(1) [of t 4 ?N] t(1) by simp
  have "t mod ?N = e"
    using connectivity_entry(1) [of tet_array argsort, OF ne srt res f e] Some self by simp
  then have teq: "t = t div ?N * ?N + e" by (metis div_mult_mod_eq)
  then have "face_ids tet_array ! (f * ?N + e) = face_ids tet_array ! (t div ?N * ?N + e)"
    using t(3) by simp
  from distinct_face_keysD [OF dk e f tf this] teq t(2) show ?thesis by simp
qed

theorem self_reference_implies_own_face_witness:
  "[[0, 1, 2, 3], [0, 1, 2, 4]] \<noteq> ([] :: int list list)
   \<and> is_argsort (face_ids [[0, 1, 2, 3], [0, 1, 2, 4]])
        (stable_argsort (face_ids [[0, 1, 2, 3], [0, 1, 2, 4]]))
   \<and> distinct_face_keys [[0, 1, 2, 3], [0, 1, 2, 4]]
   \<and> compute_element_connectivity stable_argsort [[0, 1, 2, 3], [0, 1, 2, 4]]
       = Inr ([[1, 0], [0, 1], [0, 1], [0, 1]], [[0, 0], [1, 1], [2, 2], [3, 3]])
   \<and> (1::nat) < 4 \<and> (0::nat) < length [[0, 1, 2, 3], [0, 1, 2, 4 :: int]]
   \<and> [[1, 0], [0, 1], [0, 1], [0, 1]] ! 1 ! 0 = (0::nat)
   \<and> [[0, 0], [1, 1], [2, 2], [3, 3]] ! 1 ! 0 = (1::nat)"
  using self_reference_implies_own_face [of "[[0, 1, 2, 3], [0, 1, 2, 4]]" stable_argsort
      "[[1, 0], [0, 1], [0, 1], [0, 1]]" "[[0, 0], [1, 1], [2, 2], [3, 3]]" 1 0]
    keys_B conn_B
  by simp

lemma conn_single: "compute_element_connectivity stable_argsort [[0, 1, 2, 3]]
  = Inr ([[0], [0], [0], [0]], [[0], [1], [2], [3]])"
  by code_simp

lemma keys_single:
  "is_argsort (face_ids [[0, 1, 2, 3]]) (stable_argsort (face_ids [[0, 1, 2, 3]]))"
  "at_most_twice (face_ids [[0, 1, 2, 3]])"
  by code_simp+

text \<open>
  Where the match key of a face slot is the key of no other slot, the slot keeps its
  initialisation, \<open>EToE[f,e] = e\<close> and \<open>EToF[f,e] = f\<close>: the pairing writes touch only
  slots whose key occurs again. The single tetrahedron \<open>[[0,1,2,3]]\<close> yields, for every
  sorting \<^verbatim>\<open>argsort\<close>, the tables of shape \<open>(4,1)\<close> in which every face refers to itself.
\<close>

lemma unmatched_slot_keeps_initialisation:
  assumes ne: "tet_array \<noteq> []"
    and srt: "is_argsort (face_ids tet_array) (argsort (face_ids tet_array))"
    and res: "compute_element_connectivity argsort tet_array = Inr (etoe, etof)"
    and f: "f < 4" and e: "e < length tet_array"
    and once: "key_occurs_once (face_ids tet_array) (f * length tet_array + e)"
  shows "etoe ! f ! e = e" and "etof ! f ! e = f"
proof -
  have "f * length tet_array + e < length (face_ids tet_array)"
    using slot_index(1) [OF f e] by (simp add: length_face_ids)
  then have none: "last_source (face_ids tet_array) (argsort (face_ids tet_array))
                     (f * length tet_array + e) = None"
    using unwritten_if_key_occurs_once [OF srt once] by simp
  show "etoe ! f ! e = e"
    using connectivity_entry(1) [of tet_array argsort, OF ne srt res f e] none by simp
  show "etof ! f ! e = f"
    using connectivity_entry(2) [of tet_array argsort, OF ne srt res f e] none by simp
qed

lemma single_tet_tables:
  assumes "is_argsort (face_ids [[0, 1, 2, 3]]) (argsort (face_ids [[0, 1, 2, 3]]))"
  shows "compute_element_connectivity argsort [[0, 1, 2, 3]]
           = Inr ([[0], [0], [0], [0]], [[0], [1], [2], [3]])"
  using connectivity_determined [of "[[0, 1, 2, 3]]" "[[0, 1, 2, 3]]" stable_argsort argsort,
      OF _ _ keys_single(1) assms keys_single(2)]
  by (simp add: conn_single)

lemma once_A2:
  "count_list (face_vertices [[9, 10, 477945, 0], [13824, 136487, 136488, 1]])
     (face_vertices [[9, 10, 477945, 0], [13824, 136487, 136488, 1]] ! 0) = 1"
  by (simp add: fv_A2)

text \<open>
  Claim C7 (the code fails it). In \<open>tets = [[9,10,477945,0],[13824,136487,136488,1]]\<close> the
  vertex set \<open>{9,10,477945}\<close> of face slot 0 (local face 0 of element 0) occurs only once
  among the eight faces: it is a boundary face. The slot does not keep its
  initialisation: the method returns \<open>EToE[0,0] = 1\<close>, the other element, because the
  key of the slot is also the key of local face 0 of element 1. The keys occur at most
  twice, so the result does not depend on how \<^verbatim>\<open>numpy.argsort\<close> orders equal keys
  (\<open>connectivity_determined\<close>).
\<close>

theorem collision_overwrites_boundary_slot:
  "count_list (face_vertices [[9, 10, 477945, 0], [13824, 136487, 136488, 1]])
     (face_vertices [[9, 10, 477945, 0], [13824, 136487, 136488, 1]] ! 0) = 1
   \<and> (case compute_element_connectivity stable_argsort
             [[9, 10, 477945, 0], [13824, 136487, 136488, 1]] of
         Inl err \<Rightarrow> False
       | Inr (etoe, etof) \<Rightarrow> etoe ! 0 ! 0 = 1 \<and> etoe ! 0 ! 0 \<noteq> 0)"
  by (simp add: once_A2 conn_A2)

lemma sorted_unique_eq_iff:
  fixes xs ys :: "int list"
  shows "sort xs = sort (remdups ys) \<longleftrightarrow> distinct xs \<and> set xs = set ys"
proof
  assume eq: "sort xs = sort (remdups ys)"
  have "distinct (sort (remdups ys))" by simp
  then have "distinct (sort xs)" using eq by simp
  then have "distinct xs" by simp
  moreover have "set (sort xs) = set (sort (remdups ys))" using eq by simp
  then have "set xs = set ys" by simp
  ultimately show "distinct xs \<and> set xs = set ys" by simp
next
  assume a: "distinct xs \<and> set xs = set ys"
  show "sort xs = sort (remdups ys)"
    by (rule sorted_distinct_set_unique) (use a in simp_all)
qed

lemma connectivity_error:
  "compute_element_connectivity argsort tet_array = Inl err \<Longrightarrow> err = reshape_error"
  by (auto simp: compute_element_connectivity_def Let_def split: if_splits)

lemma BC_triangles_loop_error:
  "BC_triangles_loop data BC_labels = Inl err \<Longrightarrow> err \<noteq> label_error"
  by (induction data BC_labels rule: BC_triangles_loop.induct)
    (auto simp: getitem_def mask_rows_def label_error_def Let_def
      split: option.splits sum.splits if_splits)

text \<open>
  The labelling error is raised exactly when the two lookups of line 106 succeed and
  the set of the codes found differs from the set of the values of \<^verbatim>\<open>BC_labels\<close>, or
  two labels of \<^verbatim>\<open>BC_labels\<close> carry the same code. Without a field \<^verbatim>\<open>gmsh:physical\<close>
  and without a boundary triangle the constructor raises \<^verbatim>\<open>KeyError\<close> instead.
\<close>

lemma label_error_iff:
  "init_from_file argsort data BC_labels = Inl label_error
     \<longleftrightarrow> (\<exists>physical codes.
            getitem (cell_data_dict data) ''gmsh:physical'' = Inr physical
            \<and> getitem physical ''triangle'' = Inr codes
            \<and> (set (map snd BC_labels) \<noteq> set codes \<or> \<not> distinct (map snd BC_labels)))"
proof (cases "getitem (cell_data_dict data) ''gmsh:physical''")
  case (Inl err)
  then have "err = KeyError ''gmsh:physical''"
    by (auto simp: getitem_def split: option.splits)
  then show ?thesis using Inl by (simp add: init_from_file_def label_error_def)
next
  case physical: (Inr physical)
  show ?thesis
  proof (cases "getitem physical ''triangle''")
    case (Inl err)
    then have "err = KeyError ''triangle''"
      by (auto simp: getitem_def split: option.splits)
    then show ?thesis using Inl physical by (simp add: init_from_file_def label_error_def)
  next
    case codes: (Inr codes)
    show ?thesis
    proof (cases "sort (map snd BC_labels) = sort (remdups codes)")
      case True
      have r: "reshape_error \<noteq> label_error"
        by (simp add: reshape_error_def label_error_def)
      have k: "KeyError ''tetra'' \<noteq> label_error" by (simp add: label_error_def)
      have "init_from_file argsort data BC_labels \<noteq> Inl label_error"
        using True physical codes r k BC_triangles_loop_error [of data BC_labels]
        by (auto simp: init_from_file_def Let_def getitem_def
            split: sum.splits option.splits dest!: connectivity_error)
      then show ?thesis using True physical codes by (auto simp: sorted_unique_eq_iff)
    next
      case False
      then have "init_from_file argsort data BC_labels = Inl label_error"
        using physical codes by (simp add: init_from_file_def)
      then show ?thesis using False physical codes by (auto simp: sorted_unique_eq_iff)
    qed
  qed
qed

lemma no_triangle_raises_KeyError:
  "init_from_file stable_argsort
     \<lparr> points = [[Num 0, Num 0, Num 0], [Num 1, Num 0, Num 0],
                 [Num 0, Num 1, Num 0], [Num 0, Num 0, Num 1]],
       cell_data_dict = [(''gmsh:physical'', [(''tetra'', [1])])],
       cells_dict = [(''tetra'', [[0, 1, 2, 3]])] \<rparr>
     [(''slip'', 11)] = Inl (KeyError ''triangle'')"
  by (simp add: init_from_file_def getitem_def)

lemma missing_code_raises_label_error:
  "init_from_file stable_argsort
     (sample_data \<lparr>cell_data_dict :=
        [(''gmsh:physical'', [(''triangle'', [11, 13]), (''tetra'', [1])])],
        cells_dict := [(''triangle'', [[0, 1, 2], [0, 1, 3]]), (''tetra'', [[0, 1, 2, 3]])]\<rparr>)
     [(''slip'', 11)] = Inl label_error"
  by (simp add: init_from_file_def getitem_def sample_data_def)

text \<open>
  Claim C3 (the code fails it). With \<open>BC_labels = {'a': 11, 'b': 11}\<close> and a mesh whose
  only boundary code is 11, the set of the codes in the mesh and the set of the values
  of \<open>BC_labels\<close> are both \<open>{11}\<close>: every label is present in the mesh and every code of
  the mesh is a value of \<open>BC_labels\<close>. Yet the constructor raises the labelling error,
  because lines 106 to 108 compare the lists \<open>[11, 11]\<close> and \<open>[11]\<close>.
\<close>

theorem repeated_code_raises_label_error:
  "getitem (cell_data_dict sample_data) ''gmsh:physical''
     = Inr [(''triangle'', [11]), (''tetra'', [1])]
   \<and> getitem [(''triangle'', [11 :: int]), (''tetra'', [1])] ''triangle'' = Inr [11]
   \<and> set (map snd [(''a'', 11), (''b'', 11 :: int)]) = set [11]
   \<and> init_from_file stable_argsort sample_data [(''a'', 11), (''b'', 11)] = Inl label_error"
  by (simp add: init_from_file_def getitem_def sample_data_def)

subsection \<open>Equality of meshes\<close>

lemma BC_triangles_loop_keys:
  "BC_triangles_loop data BC_labels = Inr (ns, ts)
     \<Longrightarrow> map fst ns = map fst BC_labels \<and> map fst ts = map fst BC_labels"
  by (induction data BC_labels arbitrary: ns ts rule: BC_triangles_loop.induct)
    (auto simp: Let_def split: sum.splits)

lemma init_from_file_fields:
  assumes "init_from_file argsort data BC_labels = Inr m"
  shows "map fst (N_BC_triangles m) = map fst BC_labels"
    and "map fst (BC_triangles m) = map fst BC_labels"
    and "vertices m = points data" and "N_vertices m = length (points data)"
    and "getitem (cells_dict data) ''tetra'' = Inr (tets m)"
    and "N_tets m = length (tets m)"
    and "BC_triangles_loop data BC_labels = Inr (N_BC_triangles m, BC_triangles m)"
proof -
  from assms obtain ns ts etoe etof tetra where
    l: "BC_triangles_loop data BC_labels = Inr (ns, ts)"
    and t: "getitem (cells_dict data) ''tetra'' = Inr tetra"
    and m: "m = \<lparr> N_vertices = length (points data), vertices = points data,
                 N_BC_triangles = ns, BC_triangles = ts,
                 N_tets = length tetra, tets = tetra, EToE = etoe, EToF = etof \<rparr>"
    by (auto simp: init_from_file_def Let_def split: if_splits sum.splits)
  show "map fst (N_BC_triangles m) = map fst BC_labels"
    and "map fst (BC_triangles m) = map fst BC_labels"
    using BC_triangles_loop_keys [OF l] m by simp_all
  show "vertices m = points data" and "N_vertices m = length (points data)"
    and "getitem (cells_dict data) ''tetra'' = Inr (tets m)"
    and "N_tets m = length (tets m)"
    and "BC_triangles_loop data BC_labels = Inr (N_BC_triangles m, BC_triangles m)"
    using l t m by simp_all
qed

lemma array_equal_eq: "array_equal (=) a b \<longleftrightarrow> a = b"
  by (simp add: array_equal_def list.rel_eq)

lemma all_array_equal_no_KeyError:
  "set (map fst b1) \<subseteq> set (map fst b2) \<Longrightarrow>
   all_array_equal b1 b2 = Inr (list_all (\<lambda>(k, item). map_of b2 k = Some item) b1)"
proof (induction b1)
  case Nil
  then show ?case by simp
next
  case (Cons kv b1)
  obtain key item where kv: "kv = (key, item)" by (cases kv)
  from Cons.prems kv have "key \<in> fst ` set b2" by auto
  then obtain v where v: "map_of b2 key = Some v"
    by (metis map_of_eq_None_iff not_Some_eq)
  show ?case using Cons kv v by (auto simp: array_equal_eq)
qed

lemma dict_eq_keys: "dict_eq d1 d2 \<Longrightarrow> set (map fst d1) \<subseteq> set (map fst d2)"
  by (force simp: dict_eq_def list_all_iff dest: map_of_SomeD)

lemma init_sample:
  "init_from_file stable_argsort sample_data [(''slip'', 11)] = Inr sample_mesh"
  by (simp add: init_from_file_def getitem_def sample_data_def sample_mesh_def conn_single
      triangles_have_label_def mask_rows_def)

text \<open>
  Claim C10, as stated, fails. The attributes of a \<^verbatim>\<open>Mesh\<close> are public. For an instance
  whose \<^verbatim>\<open>BC_triangles\<close> has been replaced by the empty dictionary while its
  \<^verbatim>\<open>N_BC_triangles\<close> is as it was, the \<^verbatim>\<open>N_BC_triangles\<close> dictionaries compare equal and
  the lookup \<^verbatim>\<open>other.BC_triangles['slip']\<close> raises \<^verbatim>\<open>KeyError\<close>.
\<close>

theorem reassigned_BC_triangles_counterexample:
  "dict_eq (N_BC_triangles sample_mesh) (N_BC_triangles (sample_mesh \<lparr>BC_triangles := []\<rparr>))
   \<and> Mesh_eq sample_mesh (MeshObj (sample_mesh \<lparr>BC_triangles := []\<rparr>))
       = Inl (KeyError ''slip'')"
  by (simp add: Mesh_eq_def dict_eq_def array_equal_def sample_mesh_def)

text \<open>
  Claim C10, amended. For a right operand that is not a \<^verbatim>\<open>Mesh\<close>, \<^verbatim>\<open>==\<close> returns \<open>False\<close>
  and raises nothing. For two \<^verbatim>\<open>Mesh\<close> instances the per-label lookup is reached only
  when the \<^verbatim>\<open>N_BC_triangles\<close> dictionaries are equal; otherwise the result is \<open>False\<close>.
  And for two instances as the constructor has built them, the comparison returns a
  truth value: it never raises \<^verbatim>\<open>KeyError\<close>.
\<close>

theorem eq_never_raises:
  "Mesh_eq m OtherObj = Inr False
   \<and> (\<not> dict_eq (N_BC_triangles m) (N_BC_triangles m') \<longrightarrow> Mesh_eq m (MeshObj m') = Inr False)
   \<and> (init_from_file argsort1 data1 labels1 = Inr m1
        \<and> init_from_file argsort2 data2 labels2 = Inr m2
      \<longrightarrow> (\<exists>b. Mesh_eq m1 (MeshObj m2) = Inr b))"
proof (intro conjI impI)
  show "Mesh_eq m OtherObj = Inr False" by (simp add: Mesh_eq_def)
  show "Mesh_eq m (MeshObj m') = Inr False"
    if "\<not> dict_eq (N_BC_triangles m) (N_BC_triangles m')"
    using that by (simp add: Mesh_eq_def)
  assume a: "init_from_file argsort1 data1 labels1 = Inr m1
        \<and> init_from_file argsort2 data2 labels2 = Inr m2"
  note f1 = init_from_file_fields(1,2) [of argsort1 data1 labels1 m1]
  note f2 = init_from_file_fields(1,2) [of argsort2 data2 labels2 m2]
  show "\<exists>b. Mesh_eq m1 (MeshObj m2) = Inr b"
  proof (cases "dict_eq (N_BC_triangles m1) (N_BC_triangles m2)")
    case True
    from dict_eq_keys [OF True] have "set (map fst (BC_triangles m1)) \<subseteq> set (map fst (BC_triangles m2))"
      using f1 f2 a by simp
    from all_array_equal_no_KeyError [OF this] show ?thesis
      by (auto simp: Mesh_eq_def)
  next
    case False
    then show ?thesis by (auto simp: Mesh_eq_def)
  qed
qed

theorem eq_never_raises_witness:
  "\<not> dict_eq (N_BC_triangles sample_mesh) (N_BC_triangles (sample_mesh \<lparr>N_BC_triangles := []\<rparr>))
   \<and> Mesh_eq sample_mesh (MeshObj (sample_mesh \<lparr>N_BC_triangles := []\<rparr>)) = Inr False
   \<and> init_from_file stable_argsort sample_data [(''slip'', 11)] = Inr sample_mesh
   \<and> (\<exists>b. Mesh_eq sample_mesh (MeshObj sample_mesh) = Inr b)"
  using eq_never_raises [of sample_mesh "sample_mesh \<lparr>N_BC_triangles := []\<rparr>"
      stable_argsort sample_data "[(''slip'', 11)]" sample_mesh
      stable_argsort sample_data "[(''slip'', 11)]" sample_mesh] init_sample
  by (simp add: dict_eq_def sample_mesh_def)

lemma map_of_eq_SomeI: "distinct (map fst d) \<Longrightarrow> (k, v) \<in> set d \<Longrightarrow> map_of d k = Some v"
  by simp

lemma dict_eq_iff:
  assumes d1: "distinct (map fst d1)" and d2: "distinct (map fst d2)"
  shows "dict_eq d1 d2 \<longleftrightarrow> map_of d1 = map_of d2"
proof
  assume eq: "dict_eq d1 d2"
  then have len: "length d1 = length d2"
    and all: "\<And>k v. (k, v) \<in> set d1 \<Longrightarrow> map_of d2 k = Some v"
    by (auto simp: dict_eq_def list_all_iff)
  have sub: "dom (map_of d1) \<subseteq> dom (map_of d2)"
    using all by (auto dest!: map_of_SomeD)
  have "card (dom (map_of d1)) = card (dom (map_of d2))"
    using d1 d2 len by (simp add: dom_map_of_conv_image_fst distinct_card flip: set_map)
  then have dom: "dom (map_of d1) = dom (map_of d2)"
    using sub by (simp add: card_subset_eq finite_dom_map_of)
  show "map_of d1 = map_of d2"
  proof
    fix k
    show "map_of d1 k = map_of d2 k"
    proof (cases "map_of d1 k")
      case None
      then show ?thesis using dom by (metis domIff)
    next
      case (Some v)
      then show ?thesis using all [of k v] by (auto dest: map_of_SomeD)
    qed
  qed
next
  assume eq: "map_of d1 = map_of d2"
  then have "fst ` set d1 = fst ` set d2"
    by (metis dom_map_of_conv_image_fst)
  then have "card (set (map fst d1)) = card (set (map fst d2))" by simp
  then have "length d1 = length d2"
    using d1 d2 by (simp add: distinct_card del: set_map)
  moreover have "map_of d2 k = Some v" if "(k, v) \<in> set d1" for k v
    using that d1 eq by (metis map_of_eq_SomeI)
  ultimately show "dict_eq d1 d2" by (auto simp: dict_eq_def list_all_iff)
qed

lemma all_items_iff:
  assumes d1: "distinct (map fst b1)" and keys: "set (map fst b1) = set (map fst b2)"
  shows "list_all (\<lambda>(k, item). map_of b2 k = Some item) b1 \<longleftrightarrow> map_of b1 = map_of b2"
proof
  assume all: "list_all (\<lambda>(k, item). map_of b2 k = Some item) b1"
  show "map_of b1 = map_of b2"
  proof
    fix k
    show "map_of b1 k = map_of b2 k"
    proof (cases "map_of b1 k")
      case None
      then have "k \<notin> fst ` set b2" using keys by (simp add: map_of_eq_None_iff)
      then have "map_of b2 k = None" by (simp add: map_of_eq_None_iff)
      then show ?thesis using None by simp
    next
      case (Some v)
      then have "(k, v) \<in> set b1" by (rule map_of_SomeD)
      then show ?thesis using all Some by (auto simp: list_all_iff)
    qed
  qed
next
  assume eq: "map_of b1 = map_of b2"
  have "map_of b2 k = Some v" if "(k, v) \<in> set b1" for k v
    using map_of_eq_SomeI [OF d1 that] eq by simp
  then show "list_all (\<lambda>(k, item). map_of b2 k = Some item) b1"
    by (auto simp: list_all_iff)
qed

lemma float_eq_refl: "c \<noteq> NaN \<Longrightarrow> float_eq c c"
  by (cases c) simp_all

lemma array_equal_refl: "no_nan a \<Longrightarrow> array_equal float_eq a a"
  unfolding no_nan_def array_equal_def
  by (auto simp: list_all_iff list_all2_same float_eq_refl)

lemma Mesh_eq_same_data:
  assumes i1: "init_from_file argsort1 data1 labels1 = Inr m1"
    and i2: "init_from_file argsort2 data2 labels2 = Inr m2"
    and d1: "distinct (map fst labels1)" and d2: "distinct (map fst labels2)"
  shows "Mesh_eq m1 (MeshObj m2) = Inr (same_data m1 m2)"
proof -
  note f1 = init_from_file_fields(1,2) [OF i1]
  note f2 = init_from_file_fields(1,2) [OF i2]
  have dn: "dict_eq (N_BC_triangles m1) (N_BC_triangles m2)
              \<longleftrightarrow> map_of (N_BC_triangles m1) = map_of (N_BC_triangles m2)"
    by (rule dict_eq_iff) (simp_all add: f1 f2 d1 d2)
  show ?thesis
  proof (cases "dict_eq (N_BC_triangles m1) (N_BC_triangles m2)")
    case True
    then have "fst ` set (N_BC_triangles m1) = fst ` set (N_BC_triangles m2)"
      using dn by (metis dom_map_of_conv_image_fst)
    then have keys: "set (map fst (BC_triangles m1)) = set (map fst (BC_triangles m2))"
      using f1 f2 by (metis set_map)
    have "all_array_equal (BC_triangles m1) (BC_triangles m2)
            = Inr (map_of (BC_triangles m1) = map_of (BC_triangles m2))"
      using all_array_equal_no_KeyError [of "BC_triangles m1" "BC_triangles m2"]
        all_items_iff [OF _ keys] keys f1 d1 by simp
    then show ?thesis using True dn
      by (auto simp: Mesh_eq_def same_data_def array_equal_eq)
  next
    case False
    then show ?thesis using dn by (simp add: Mesh_eq_def same_data_def)
  qed
qed

lemma init_sample_nan:
  "init_from_file stable_argsort
     (sample_data \<lparr>points := [[NaN, Num 0, Num 0], [Num 1, Num 0, Num 0],
                              [Num 0, Num 1, Num 0], [Num 0, Num 0, Num 1]]\<rparr>)
     [(''slip'', 11)]
   = Inr (sample_mesh \<lparr>vertices := [[NaN, Num 0, Num 0], [Num 1, Num 0, Num 0],
                                      [Num 0, Num 1, Num 0], [Num 0, Num 0, Num 1]]\<rparr>)"
  by (simp add: init_from_file_def getitem_def sample_data_def sample_mesh_def conn_single
      triangles_have_label_def mask_rows_def)

lemma init_sample_moved:
  "init_from_file stable_argsort
     (sample_data \<lparr>points := [[Num 0, Num 0, Num 0], [Num 2, Num 0, Num 0],
                              [Num 0, Num 1, Num 0], [Num 0, Num 0, Num 1]]\<rparr>)
     [(''slip'', 11)]
   = Inr (sample_mesh \<lparr>vertices := [[Num 0, Num 0, Num 0], [Num 2, Num 0, Num 0],
                                      [Num 0, Num 1, Num 0], [Num 0, Num 0, Num 1]]\<rparr>)"
  by (simp add: init_from_file_def getitem_def sample_data_def sample_mesh_def conn_single
      triangles_have_label_def mask_rows_def)

text \<open>
  Claim C5, as stated, fails for coordinates that are not numbers: a mesh built from a
  file with a NaN coordinate is not equal to a mesh built from the same raw arrays, not
  even to itself, since \<^verbatim>\<open>numpy.array_equal\<close> compares NaN unequal to NaN.
\<close>

theorem nan_mesh_counterexample:
  "init_from_file stable_argsort
     (sample_data \<lparr>points := [[NaN, Num 0, Num 0], [Num 1, Num 0, Num 0],
                              [Num 0, Num 1, Num 0], [Num 0, Num 0, Num 1]]\<rparr>)
     [(''slip'', 11)]
   = Inr (sample_mesh \<lparr>vertices := [[NaN, Num 0, Num 0], [Num 1, Num 0, Num 0],
                                      [Num 0, Num 1, Num 0], [Num 0, Num 0, Num 1]]\<rparr>)
   \<and> Mesh_eq (sample_mesh \<lparr>vertices := [[NaN, Num 0, Num 0], [Num 1, Num 0, Num 0],
                                      [Num 0, Num 1, Num 0], [Num 0, Num 0, Num 1]]\<rparr>)
        (MeshObj (sample_mesh \<lparr>vertices := [[NaN, Num 0, Num 0], [Num 1, Num 0, Num 0],
                                      [Num 0, Num 1, Num 0], [Num 0, Num 0, Num 1]]\<rparr>))
     = Inr False"
  by (simp add: init_sample_nan Mesh_eq_def array_equal_def)

text \<open>
  Claim C5, amended. Two \<^verbatim>\<open>Mesh\<close> instances compare equal under \<^verbatim>\<open>==\<close> if and only if
  their vertex counts, element counts and per-label boundary-triangle counts match and
  their vertex-coordinate, tetrahedron and per-label boundary-triangle arrays are
  element-wise equal, a NaN coordinate being unequal to itself; \<open>EToE\<close> and \<open>EToF\<close> play
  no role. In particular two meshes built from identical raw arrays without NaN
  coordinates compare equal, whatever order \<^verbatim>\<open>argsort\<close> gave equal keys in each
  construction, and changing a vertex coordinate makes them unequal. \<open>BC_labels\<close> is a
  dictionary: its keys are distinct.
\<close>

theorem Mesh_eq_iff_same_data:
  "(init_from_file argsort_a data_a labels_a = Inr m_a
      \<and> init_from_file argsort_b data_b labels_b = Inr m_b
      \<and> distinct (map fst labels_a) \<and> distinct (map fst labels_b)
    \<longrightarrow> Mesh_eq m_a (MeshObj m_b) = Inr (same_data m_a m_b))
   \<and> Mesh_eq (m \<lparr>EToE := e_a, EToF := f_a\<rparr>) (MeshObj (m' \<lparr>EToE := e_b, EToF := f_b\<rparr>))
       = Mesh_eq m (MeshObj m')
   \<and> (init_from_file argsort_c data_c labels_c = Inr m_c
      \<and> init_from_file argsort_d data_c labels_c = Inr m_d
      \<and> distinct (map fst labels_c) \<and> no_nan (points data_c)
    \<longrightarrow> Mesh_eq m_c (MeshObj m_d) = Inr True)
   \<and> (init_from_file argsort_g data_g labels_g = Inr m_g
      \<and> init_from_file argsort_h data_h labels_h = Inr m_h
      \<and> \<not> array_equal float_eq (points data_g) (points data_h)
    \<longrightarrow> Mesh_eq m_g (MeshObj m_h) = Inr False)"
proof (intro conjI impI)
  assume "init_from_file argsort_a data_a labels_a = Inr m_a
      \<and> init_from_file argsort_b data_b labels_b = Inr m_b
      \<and> distinct (map fst labels_a) \<and> distinct (map fst labels_b)"
  then show "Mesh_eq m_a (MeshObj m_b) = Inr (same_data m_a m_b)"
    using Mesh_eq_same_data by blast
next
  show "Mesh_eq (m \<lparr>EToE := e_a, EToF := f_a\<rparr>) (MeshObj (m' \<lparr>EToE := e_b, EToF := f_b\<rparr>))
       = Mesh_eq m (MeshObj m')"
    by (simp add: Mesh_eq_def)
next
  assume a: "init_from_file argsort_c data_c labels_c = Inr m_c
      \<and> init_from_file argsort_d data_c labels_c = Inr m_d
      \<and> distinct (map fst labels_c) \<and> no_nan (points data_c)"
  then have i_c: "init_from_file argsort_c data_c labels_c = Inr m_c"
    and i_d: "init_from_file argsort_d data_c labels_c = Inr m_d"
    and d: "distinct (map fst labels_c)" and nn: "no_nan (points data_c)"
    by simp_all
  have "same_data m_c m_d"
    using init_from_file_fields(3-7) [OF i_c] init_from_file_fields(3-7) [OF i_d]
      array_equal_refl [OF nn]
    by (simp add: same_data_def)
  then show "Mesh_eq m_c (MeshObj m_d) = Inr True"
    using Mesh_eq_same_data [OF i_c i_d d d] by simp
next
  assume a: "init_from_file argsort_g data_g labels_g = Inr m_g
      \<and> init_from_file argsort_h data_h labels_h = Inr m_h
      \<and> \<not> array_equal float_eq (points data_g) (points data_h)"
  then have i_g: "init_from_file argsort_g data_g labels_g = Inr m_g"
    and i_h: "init_from_file argsort_h data_h labels_h = Inr m_h"
    and ne: "\<not> array_equal float_eq (points data_g) (points data_h)"
    by simp_all
  show "Mesh_eq m_g (MeshObj m_h) = Inr False"
    using init_from_file_fields(3) [OF i_g] init_from_file_fields(3) [OF i_h] ne
    by (simp add: Mesh_eq_def)
qed

theorem Mesh_eq_iff_same_data_witness:
  "init_from_file stable_argsort sample_data [(''slip'', 11)] = Inr sample_mesh
   \<and> distinct (map fst [(''slip'', 11 :: int)]) \<and> no_nan (points sample_data)
   \<and> Mesh_eq sample_mesh (MeshObj sample_mesh) = Inr (same_data sample_mesh sample_mesh)
   \<and> Mesh_eq sample_mesh (MeshObj sample_mesh) = Inr True
   \<and> \<not> array_equal float_eq (points sample_data)
        (points (sample_data \<lparr>points := [[Num 0, Num 0, Num 0], [Num 2, Num 0, Num 0],
                                          [Num 0, Num 1, Num 0], [Num 0, Num 0, Num 1]]\<rparr>))
   \<and> Mesh_eq sample_mesh
        (MeshObj (sample_mesh \<lparr>vertices := [[Num 0, Num 0, Num 0], [Num 2, Num 0, Num 0],
                                             [Num 0, Num 1, Num 0], [Num 0, Num 0, Num 1]]\<rparr>))
       = Inr False"
proof -
  have nn: "no_nan (points sample_data)"
    by (simp add: no_nan_def sample_data_def)
  have ne: "\<not> array_equal float_eq (points sample_data)
        (points (sample_data \<lparr>points := [[Num 0, Num 0, Num 0], [Num 2, Num 0, Num 0],
                                          [Num 0, Num 1, Num 0], [Num 0, Num 0, Num 1]]\<rparr>))"
    by (simp add: array_equal_def sample_data_def)
  have sd: "same_data sample_mesh sample_mesh"
    by (simp add: same_data_def sample_mesh_def array_equal_def)
  show ?thesis
    using Mesh_eq_iff_same_data [where argsort_a = stable_argsort and data_a = sample_data
        and labels_a = "[(''slip'', 11)]" and m_a = sample_mesh
        and argsort_b = stable_argsort and data_b = sample_data
        and labels_b = "[(''slip'', 11)]" and m_b = sample_mesh
        and argsort_c = stable_argsort and argsort_d = stable_argsort and data_c = sample_data
        and labels_c = "[(''slip'', 11)]" and m_c = sample_mesh and m_d = sample_mesh
        and argsort_g = stable_argsort and data_g = sample_data
        and labels_g = "[(''slip'', 11)]" and m_g = sample_mesh
        and argsort_h = stable_argsort
        and data_h = "sample_data \<lparr>points := [[Num 0, Num 0, Num 0], [Num 2, Num 0, Num 0],
                                          [Num 0, Num 1, Num 0], [Num 0, Num 0, Num 1]]\<rparr>"
        and labels_h = "[(''slip'', 11)]"
        and m_h = "sample_mesh \<lparr>vertices := [[Num 0, Num 0, Num 0], [Num 2, Num 0, Num 0],
                                             [Num 0, Num 1, Num 0], [Num 0, Num 0, Num 1]]\<rparr>"]
      init_sample init_sample_moved nn ne sd
    by simp
qed

subsection \<open>The method leaves its argument as it was\<close>

lemma unchanged_refl: "unchanged st st"
  by (simp add: unchanged_def)

lemma take_prefix_length: "take n ys = xs \<Longrightarrow> length xs = n \<Longrightarrow> n \<le> length ys"
  by (metis length_take min.cobounded2 min_def nat_le_linear)

lemma unchanged_length:
  assumes "unchanged st st'"
  shows "length (arrays1 st) \<le> length (arrays1 st')"
    and "length (arrays2 st) \<le> length (arrays2 st')"
  using assms take_prefix_length unfolding unchanged_def by blast+

lemma take_take_prefix:
  assumes "take (length xs) ys = xs" and "take (length ys) zs = ys"
  shows "take (length xs) zs = xs"
proof -
  have le: "length xs \<le> length ys" using assms(1) take_prefix_length by blast
  have "take (length xs) zs = take (length xs) (take (length ys) zs)"
    using le by (simp add: min_absorb1)
  then show ?thesis using assms by simp
qed

lemma unchanged_trans:
  assumes a: "unchanged st st'" and b: "unchanged st' st''"
  shows "unchanged st st''"
  using a b unfolding unchanged_def by (blast intro: take_take_prefix)

lemma unchanged_new1: "unchanged st (snd (new1 v st))"
  by (simp add: unchanged_def new1_def)

lemma unchanged_new2: "unchanged st (snd (new2 rows st))"
  by (simp add: unchanged_def new2_def)

lemma fst_new2: "fst (new2 rows st) = length (arrays2 st)"
  by (simp add: new2_def)

lemma unchanged_set2:
  "unchanged st0 st \<Longrightarrow> length (arrays2 st0) \<le> a \<Longrightarrow> unchanged st0 (set2 a rows st)"
  by (simp add: unchanged_def set2_def)

lemma unchanged_step1:
  "unchanged st0 st \<Longrightarrow> unchanged st0 (snd (new1 v st))"
  using unchanged_trans unchanged_new1 by blast

lemma unchanged_step2:
  "unchanged st0 st \<Longrightarrow> unchanged st0 (snd (new2 rows st))"
  using unchanged_trans unchanged_new2 by blast

lemma fresh_step2:
  "unchanged st0 st \<Longrightarrow> length (arrays2 st0) \<le> fst (new2 rows st)"
  using unchanged_length(2) by (simp add: fst_new2)

lemma stack_faces_unchanged: "unchanged st (snd (stack_faces tets_at st))"
  unfolding stack_faces_def Let_def split_def
  by (intro unchanged_step2 unchanged_new2)

lemma stack_faces_fresh: "length (arrays2 st) \<le> fst (stack_faces tets_at st)"
  unfolding stack_faces_def Let_def split_def
  by (intro fresh_step2 unchanged_step2 unchanged_new2)

lemma sort_faces_unchanged: "unchanged st (snd (sort_faces argsort fv fvi st))"
  unfolding sort_faces_def Let_def split_def snd_conv
  by (intro unchanged_step1 unchanged_step2 unchanged_new1)

lemma interior_faces_unchanged: "unchanged st (snd (interior_faces ids fvi st))"
  unfolding interior_faces_def Let_def split_def snd_conv
  by (intro unchanged_step1 unchanged_new1)

lemma unchanged_sort_in_place:
  "unchanged st0 st \<Longrightarrow> length (arrays2 st0) \<le> a \<Longrightarrow> unchanged st0 (sort_in_place a st)"
  by (simp add: sort_in_place_def unchanged_set2)

lemma unchanged_assign_in_place:
  "unchanged st0 st \<Longrightarrow> length (arrays2 st0) \<le> a
     \<Longrightarrow> unchanged st0 (assign_in_place cols a idx src st)"
  by (simp add: assign_in_place_def unchanged_set2)

lemma unchanged_sort_faces_step:
  "unchanged st0 st \<Longrightarrow> unchanged st0 (snd (sort_faces argsort fv fvi st))"
  using unchanged_trans sort_faces_unchanged by blast

lemma unchanged_interior_faces_step:
  "unchanged st0 st \<Longrightarrow> unchanged st0 (snd (interior_faces ids fvi st))"
  using unchanged_trans interior_faces_unchanged by blast

lemma connectivity_store_unchanged:
  "unchanged st (snd (compute_element_connectivity_store argsort tets_at st))"
proof -
  define fv where "fv = fst (stack_faces tets_at st)"
  define st1 where "st1 = sort_in_place fv (snd (stack_faces tets_at st))"
  define st2 where "st2 = snd (new1 (map int [0..<length (get2 st tets_at) * 4]) st1)"
  define etoe where "etoe = fst (new2 (map (map int) (EToE_init (length (get2 st tets_at)))) st2)"
  define st3 where "st3 = snd (new2 (map (map int) (EToE_init (length (get2 st tets_at)))) st2)"
  define etof where "etof = fst (new2 (map (map int) (EToF_init (length (get2 st tets_at)))) st3)"
  define st4 where "st4 = snd (new2 (map (map int) (EToF_init (length (get2 st tets_at)))) st3)"
  have u1: "unchanged st st1"
    unfolding st1_def fv_def
    by (intro unchanged_sort_in_place stack_faces_unchanged stack_faces_fresh)
  have u2: "unchanged st st2" unfolding st2_def by (intro unchanged_step1 u1)
  have u3: "unchanged st st3" unfolding st3_def by (intro unchanged_step2 u2)
  have f3: "length (arrays2 st) \<le> etoe" unfolding etoe_def by (intro fresh_step2 u2)
  have u4: "unchanged st st4" unfolding st4_def by (intro unchanged_step2 u3)
  have f4: "length (arrays2 st) \<le> etof" unfolding etof_def by (intro fresh_step2 u3)
  show ?thesis
  proof (cases "length (get2 st tets_at) = 0")
    case True
    then have "snd (compute_element_connectivity_store argsort tets_at st) = st3"
      by (simp add: compute_element_connectivity_store_def Let_def split_def
          st3_def st2_def st1_def fv_def)
    then show ?thesis using u3 by simp
  next
    case False
    have "\<exists>N idx src idx' src' fvi argsort' ids fvi'.
            snd (compute_element_connectivity_store argsort tets_at st)
            = assign_in_place N etof idx src
                (assign_in_place N etoe idx' src'
                   (snd (interior_faces ids fvi'
                      (snd (sort_faces argsort' fv fvi st4)))))"
      using False
      by (simp add: compute_element_connectivity_store_def Let_def split_def
          etoe_def etof_def st4_def st3_def st2_def st1_def fv_def) blast
    then show ?thesis
      using u4 f3 f4
      by (auto intro!: unchanged_assign_in_place unchanged_interior_faces_step
          unchanged_sort_faces_step)
  qed
qed

lemma get2_unchanged:
  assumes "unchanged st st'" and "a < length (arrays2 st)"
  shows "get2 st' a = get2 st a"
proof -
  have "take (length (arrays2 st)) (arrays2 st') ! a = arrays2 st' ! a"
    using assms(2) by simp
  then show ?thesis using assms(1) by (simp add: unchanged_def get2_def)
qed

lemma stack_faces_copy:
  assumes "tets_at < length (arrays2 st)"
  shows "get2 (snd (stack_faces tets_at st)) (fst (stack_faces tets_at st))
           = vstack (map (take_cols (get2 st tets_at)) face_cols)"
  using assms
  by (simp add: stack_faces_def Let_def split_def new2_def get2_def nth_append face_cols_def)

subsection \<open>The method over the store computes the tables of the method over values\<close>

lemma stack_faces_eq:
  assumes "tets_at < length (arrays2 st)"
  shows "stack_faces tets_at st =
     (length (arrays2 st) + 4,
      st \<lparr>arrays2 := arrays2 st @
            [take_cols (get2 st tets_at) [0, 1, 2], take_cols (get2 st tets_at) [0, 1, 3],
             take_cols (get2 st tets_at) [1, 2, 3], take_cols (get2 st tets_at) [0, 2, 3],
             vstack (map (take_cols (get2 st tets_at)) face_cols)]\<rparr>)"
  using assms
  by (simp add: stack_faces_def Let_def split_def new2_def get2_def nth_append face_cols_def)

lemma sort_faces_eq:
  assumes "fv < length (arrays2 st)" and "fvi < length (arrays1 st)"
  shows "sort_faces argsort fv fvi st =
     ((length (arrays1 st) + 2, length (arrays2 st), length (arrays1 st) + 3),
      st \<lparr>arrays1 := arrays1 st @
            [map tuple_hash (get2 st fv),
             map int (argsort (map tuple_hash (get2 st fv))),
             map (\<lambda>i. map tuple_hash (get2 st fv) ! i) (argsort (map tuple_hash (get2 st fv))),
             map (\<lambda>i. get1 st fvi ! i) (argsort (map tuple_hash (get2 st fv)))],
          arrays2 := arrays2 st @
            [map (\<lambda>i. get2 st fv ! i) (argsort (map tuple_hash (get2 st fv)))]\<rparr>)"
  using assms
  by (simp add: sort_faces_def Let_def split_def new1_def new2_def get1_def get2_def
      nth_append comp_def)

lemma interior_faces_eq:
  assumes "ids < length (arrays1 st)" and "fvi < length (arrays1 st)"
  shows "interior_faces ids fvi st =
     ((length (arrays1 st) + 1, length (arrays1 st) + 2),
      st \<lparr>arrays1 := arrays1 st @
            [map int (interior_face_id_idx (get1 st ids)),
             map (\<lambda>i. get1 st fvi ! i) (interior_face_id_idx (get1 st ids)),
             map (\<lambda>i. get1 st fvi ! (i + 1)) (interior_face_id_idx (get1 st ids))]\<rparr>)"
  using assms
  by (simp add: interior_faces_def Let_def split_def new1_def get1_def nth_append comp_def
      nat_add_distrib)

lemma map_map_write_at:
  "map (map f) (write_at c (s, v) A) = write_at c (s, f v) (map (map f) A)"
proof (cases "s div c < length A")
  case True
  then show ?thesis by (simp add: write_at_def unravel_index_def map_update)
next
  case False
  then show ?thesis by (simp add: write_at_def unravel_index_def list_update_beyond)
qed

lemma map_map_fold_write:
  "map (map f) (fold (write_at c) ws A)
     = fold (write_at c) (map (\<lambda>(s, v). (s, f v)) ws) (map (map f) A)"
  by (induction ws arbitrary: A) (auto simp: map_map_write_at)

lemma read_at_map:
  assumes "shape r c A" and "s < r * c"
  shows "read_at c (map (map f) A) s = f (read_at c A s)"
proof -
  have d: "s div c < length A" and m: "s mod c < c"
    using unravel_lt [OF assms(2)] assms(1) by (simp_all add: shape_def)
  have "length (A ! (s div c)) = c"
    using assms(1) d by (simp add: shape_def list_all_iff)
  then show ?thesis using d m by (simp add: read_at_def unravel_index_def)
qed

lemma assign_at_map_values:
  "assign_at c (map (map f) A) idx (map f vals) = map (map f) (assign_at c A idx vals)"
  by (simp add: assign_at_def map_map_fold_write zip_map2)

lemma assign_at_map:
  assumes "shape r c A" and "\<forall>s \<in> set src. s < r * c"
  shows "assign_at c (map (map f) A) idx (map (read_at c (map (map f) A)) src)
           = map (map f) (assign_at c A idx (map (read_at c A) src))"
proof -
  have "map (read_at c (map (map f) A)) src = map f (map (read_at c A) src)"
    using assms by (simp add: read_at_map [OF assms(1)])
  then show ?thesis by (simp only: assign_at_map_values)
qed

lemma nat_int_reorder:
  assumes "\<forall>j \<in> set p. j < length xs" and "i < length p"
  shows "nat (map ((!) (map int xs)) p ! i) = map ((!) xs) p ! i"
  using assms by simp

lemma interior_lt: "i \<in> set (interior_face_id_idx ids) \<Longrightarrow> Suc i < length ids"
  by (auto simp: interior_face_id_idx_def)

lemma connectivity_store_eq:
  assumes a: "tets_at < length (arrays2 st)" and ne: "get2 st tets_at \<noteq> []"
    and srt: "is_argsort (face_ids (get2 st tets_at)) (argsort (face_ids (get2 st tets_at)))"
    and res: "compute_element_connectivity argsort (get2 st tets_at) = Inr (etoe, etof)"
  shows "fst (compute_element_connectivity_store argsort tets_at st)
           = Inr (length (arrays2 st) + 5, length (arrays2 st) + 6)"
    and "get2 (snd (compute_element_connectivity_store argsort tets_at st))
           (length (arrays2 st) + 5) = map (map int) etoe"
    and "get2 (snd (compute_element_connectivity_store argsort tets_at st))
           (length (arrays2 st) + 6) = map (map int) etof"
proof -
  define T where "T = get2 st tets_at"
  define N where "N = length T"
  define p where "p = argsort (face_ids T)"
  define I where "I = interior_face_id_idx (map ((!) (face_ids T)) p)"
  define L where "L = map ((!) (map ((!) [0..<N * 4]) p)) I"
  define R where "R = map (\<lambda>i. map ((!) [0..<N * 4]) p ! Suc i) I"
  define L' where "L' = map (nat \<circ> (!) (map ((!) (map int [0..<N * 4])) p)) I"
  define R' where "R' = map (nat \<circ> (\<lambda>i. map ((!) (map int [0..<N * 4])) p ! Suc i)) I"
  have N0: "N \<noteq> 0" using ne by (simp add: N_def T_def)
  have lp: "length p = 4 * N" and pr: "\<forall>j \<in> set p. j < length [0..<N * 4]"
    using srt by (auto simp: is_argsort_def p_def T_def N_def length_face_ids list_all_iff)
  have Ii: "Suc i < length p" if "i \<in> set I" for i
    using interior_lt [of i "map ((!) (face_ids T)) p"] that by (simp add: I_def)
  have LL: "L' = L"
    unfolding L'_def L_def using nat_int_reorder [OF pr] Ii by (auto simp: Suc_lessD)
  have RR: "R' = R"
    unfolding R'_def R_def using nat_int_reorder [OF pr] Ii by auto
  have pn: "p ! i < N * 4" if "i < length p" for i
    using pr nth_mem [OF that] by auto
  have xn: "[0..<N * 4] ! (p ! i) < 4 * N" if "i < length p" for i
    using pn [OF that] by simp
  have rng: "\<forall>s \<in> set (R @ L). s < 4 * N"
    using Ii xn by (auto simp: R_def L_def Suc_lessD)
  have pure: "etoe = assign_at N (EToE_init N) (L @ R) (map (read_at N (EToE_init N)) (R @ L))"
    "etof = assign_at N (EToF_init N) (L @ R) (map (read_at N (EToF_init N)) (R @ L))"
    using res N0 unfolding T_def [symmetric]
    by (simp_all add: compute_element_connectivity_def Let_def N_def L_def R_def I_def p_def
        comp_def)
  show "fst (compute_element_connectivity_store argsort tets_at st)
           = Inr (length (arrays2 st) + 5, length (arrays2 st) + 6)"
    using a ne
    by (simp add: compute_element_connectivity_store_def Let_def split_def
      stack_faces_eq sort_faces_eq interior_faces_eq new1_def new2_def sort_in_place_def
      assign_in_place_def set2_def get1_def get2_def nth_append)
  have "get2 (snd (compute_element_connectivity_store argsort tets_at st))
           (length (arrays2 st) + 5)
        = assign_at N (map (map int) (EToE_init N)) (L' @ R')
            (map (read_at N (map (map int) (EToE_init N))) (R' @ L'))"
    using a ne unfolding L'_def R'_def I_def p_def N_def T_def face_ids_def face_vertices_def
    by (simp add: compute_element_connectivity_store_def Let_def split_def
      stack_faces_eq sort_faces_eq interior_faces_eq new1_def new2_def sort_in_place_def
      assign_in_place_def set2_def get1_def get2_def nth_append nth_list_update
      list_update_append comp_def)
  then show "get2 (snd (compute_element_connectivity_store argsort tets_at st))
           (length (arrays2 st) + 5) = map (map int) etoe"
    unfolding LL RR pure using assign_at_map [OF shape_EToE_init rng] by simp
  have "get2 (snd (compute_element_connectivity_store argsort tets_at st))
           (length (arrays2 st) + 6)
        = assign_at N (map (map int) (EToF_init N)) (L' @ R')
            (map (read_at N (map (map int) (EToF_init N))) (R' @ L'))"
    using a ne unfolding L'_def R'_def I_def p_def N_def T_def face_ids_def face_vertices_def
    by (simp add: compute_element_connectivity_store_def Let_def split_def
      stack_faces_eq sort_faces_eq interior_faces_eq new1_def new2_def sort_in_place_def
      assign_in_place_def set2_def get1_def get2_def nth_append nth_list_update
      list_update_append comp_def)
  then show "get2 (snd (compute_element_connectivity_store argsort tets_at st))
           (length (arrays2 st) + 6) = map (map int) etof"
    unfolding LL RR pure using assign_at_map [OF shape_EToF_init rng] by simp
qed

lemma sample_store_run:
  "fst (init_connectivity stable_argsort 1 sample_store)
     = Inr \<lparr> tets_ref = 1, EToE_ref = 7, EToF_ref = 8 \<rparr>
   \<and> get2 (snd (init_connectivity stable_argsort 1 sample_store)) 7
       = [[0, 0], [0, 1], [1, 1], [0, 1]]
   \<and> get2 (snd (init_connectivity stable_argsort 1 sample_store)) 8
       = [[0, 2], [1, 1], [0, 2], [3, 3]]"
proof -
  have g: "get2 sample_store 1 = [[0, 1, 2, 3], [1, 2, 3, 4]]"
    and l: "length (arrays2 sample_store) = 2"
    by (simp_all add: sample_store_def get2_def)
  have a: "1 < length (arrays2 sample_store)" unfolding l by simp
  have ne: "get2 sample_store 1 \<noteq> []" unfolding g by simp
  have srt: "is_argsort (face_ids (get2 sample_store 1))
               (stable_argsort (face_ids (get2 sample_store 1)))"
    unfolding g by (rule two_tets_keys(1))
  have res: "compute_element_connectivity stable_argsort (get2 sample_store 1)
               = Inr ([[0, 0], [0, 1], [1, 1], [0, 1]], [[0, 2], [1, 1], [0, 2], [3, 3]])"
    unfolding g by (rule two_tets_stable)
  show ?thesis
    using connectivity_store_eq [OF a ne srt res]
    by (simp add: init_connectivity_def Let_def split_def l)
qed

text \<open>
  Claim C9. The connectivity method does not mutate its input. Whatever the store, the
  address of \<open>tets\<close> and \<^verbatim>\<open>argsort\<close> are, after the call, whether it returns or raises the
  error of line 210, every array that existed before the call is at its address with
  the entries it had, in particular the array passed in. The array that line 193 sorts
  in place is not the argument: it is at a fresh address, that of the copy of the face
  columns that \<^verbatim>\<open>numpy.vstack\<close> made. Hence after lines 123 to 126 of the constructor
  \<^verbatim>\<open>self.tets\<close> and \<^verbatim>\<open>EToV\<close> are the address of the loader's array, and the array there
  is as the loader delivered it.
\<close>

theorem connectivity_does_not_mutate_input:
  "unchanged st (snd (compute_element_connectivity_store argsort tets_at st))
   \<and> (tets_at < length (arrays2 st) \<longrightarrow>
        get2 (snd (compute_element_connectivity_store argsort tets_at st)) tets_at
          = get2 st tets_at
        \<and> fst (stack_faces tets_at st) \<noteq> tets_at
        \<and> get2 (snd (stack_faces tets_at st)) (fst (stack_faces tets_at st))
            = vstack (map (take_cols (get2 st tets_at)) face_cols))
   \<and> length (arrays2 st) \<le> fst (stack_faces tets_at st)
   \<and> (tetra < length (arrays2 st) \<and> fst (init_connectivity argsort tetra st) = Inr self
        \<longrightarrow> tets_ref self = tetra \<and> EToV self = tetra
            \<and> get2 (snd (init_connectivity argsort tetra st)) (EToV self) = get2 st tetra)"
proof (intro conjI impI)
  show u: "unchanged st (snd (compute_element_connectivity_store argsort tets_at st))"
    by (rule connectivity_store_unchanged)
  show f: "length (arrays2 st) \<le> fst (stack_faces tets_at st)"
    by (rule stack_faces_fresh)
  show "get2 (snd (compute_element_connectivity_store argsort tets_at st)) tets_at
          = get2 st tets_at"
    if "tets_at < length (arrays2 st)"
    using u that by (rule get2_unchanged)
  show "fst (stack_faces tets_at st) \<noteq> tets_at" if "tets_at < length (arrays2 st)"
    using f that by simp
  show "get2 (snd (stack_faces tets_at st)) (fst (stack_faces tets_at st))
          = vstack (map (take_cols (get2 st tets_at)) face_cols)"
    if "tets_at < length (arrays2 st)"
    using that by (rule stack_faces_copy)
next
  assume a: "tetra < length (arrays2 st) \<and> fst (init_connectivity argsort tetra st) = Inr self"
  then have t: "tets_ref self = tetra"
    by (auto simp: init_connectivity_def Let_def split_def split: sum.splits)
  then show "tets_ref self = tetra" .
  from t show e: "EToV self = tetra" by (simp add: EToV_def)
  have "snd (init_connectivity argsort tetra st)
          = snd (compute_element_connectivity_store argsort tetra st)"
    by (simp add: init_connectivity_def Let_def split_def)
  then show "get2 (snd (init_connectivity argsort tetra st)) (EToV self) = get2 st tetra"
    using get2_unchanged [OF connectivity_store_unchanged, of tetra st argsort tetra] a e
    by simp
qed

theorem connectivity_does_not_mutate_input_witness:
  "(1::nat) < length (arrays2 sample_store)
   \<and> fst (init_connectivity stable_argsort 1 sample_store)
       = Inr \<lparr> tets_ref = 1, EToE_ref = 7, EToF_ref = 8 \<rparr>
   \<and> get2 (snd (compute_element_connectivity_store stable_argsort 1 sample_store)) 1
       = [[0, 1, 2, 3], [1, 2, 3, 4]]
   \<and> fst (stack_faces 1 sample_store) \<noteq> 1
   \<and> EToV \<lparr> tets_ref = 1, EToE_ref = 7, EToF_ref = 8 \<rparr> = 1
   \<and> get2 (snd (init_connectivity stable_argsort 1 sample_store))
         (EToV \<lparr> tets_ref = 1, EToE_ref = 7, EToF_ref = 8 \<rparr>)
       = [[0, 1, 2, 3], [1, 2, 3, 4]]
   \<and> get2 (snd (init_connectivity stable_argsort 1 sample_store)) 7
       = [[0, 0], [0, 1], [1, 1], [0, 1]]"
  using connectivity_does_not_mutate_input [of sample_store stable_argsort 1 1
      "\<lparr> tets_ref = 1, EToE_ref = 7, EToF_ref = 8 \<rparr>"]
    sample_store_run
  by (simp add: sample_store_def get2_def EToV_def)

end
